theory Spec2Isabelle
  imports Main "HOL-Library.Sublist" "HOL-Library.AList"
begin

section \<open>Python strings and integers\<close>

text \<open>
  The program is \<^verbatim>\<open>src/app.py\<close>, a chat bot that keeps an equipment ledger in two
  worksheets. Python \<^verbatim>\<open>str\<close> values are modelled as \<^typ>\<open>string\<close>, a character being
  its code point: the type holds the code points below 256, and a text with a code point
  from 256 on is outside the model. On these code points the string methods the program
  calls are modelled as Python has them: the blanks of \<^verbatim>\<open>str.strip\<close> and \<^verbatim>\<open>int\<close> (the ASCII
  blanks, U+0085 and U+00A0), the characters of \<^verbatim>\<open>str.isdigit\<close> (the digits \<^verbatim>\<open>0\<close>..\<^verbatim>\<open>9\<close>
  and the superscripts U+00B2, U+00B3, U+00B9), the decimal digits \<^verbatim>\<open>int\<close> reads
  (\<^verbatim>\<open>0\<close>..\<^verbatim>\<open>9\<close>) and the upper-case letters of \<^verbatim>\<open>str.lower\<close> (\<^verbatim>\<open>A\<close>..\<^verbatim>\<open>Z\<close>, U+00C0..U+00D6,
  U+00D8..U+00DE). Python \<^verbatim>\<open>int\<close> is \<^typ>\<open>int\<close>.
\<close>

text \<open>The decimal digits, which \<^verbatim>\<open>int\<close> reads.\<close>

definition is_digit :: "char \<Rightarrow> bool" where
  "is_digit c = (c \<in> set ''0123456789'')"

text \<open>The characters \<^verbatim>\<open>str.isdigit\<close> accepts: the decimal digits and the superscripts
  two, three and one, which \<^verbatim>\<open>int\<close> refuses.\<close>

definition is_digit_char :: "char \<Rightarrow> bool" where
  "is_digit_char c = (is_digit c \<or> c \<in> set [CHR 0xB2, CHR 0xB3, CHR 0xB9])"

text \<open>The blanks that \<^verbatim>\<open>str.strip\<close> and \<^verbatim>\<open>int\<close> drop.\<close>

definition is_space :: "char \<Rightarrow> bool" where
  "is_space c = (c \<in> set [CHR '' '', CHR 0x09, CHR 0x0A, CHR 0x0B, CHR 0x0C, CHR 0x0D,
                            CHR 0x1C, CHR 0x1D, CHR 0x1E, CHR 0x1F, CHR 0x85, CHR 0xA0])"

text \<open>\<^verbatim>\<open>s.strip()\<close>: blanks removed at both ends.\<close>

definition strip :: "string \<Rightarrow> string" where
  "strip s = rev (dropWhile is_space (rev (dropWhile is_space s)))"

text \<open>\<^verbatim>\<open>s.lower()\<close>.\<close>

definition upper_letters :: string where
  "upper_letters = ''ABCDEFGHIJKLMNOPQRSTUVWXYZ'' @
     [CHR 0xC0, CHR 0xC1, CHR 0xC2, CHR 0xC3, CHR 0xC4, CHR 0xC5, CHR 0xC6, CHR 0xC7,
      CHR 0xC8, CHR 0xC9, CHR 0xCA, CHR 0xCB, CHR 0xCC, CHR 0xCD, CHR 0xCE, CHR 0xCF,
      CHR 0xD0, CHR 0xD1, CHR 0xD2, CHR 0xD3, CHR 0xD4, CHR 0xD5, CHR 0xD6,
      CHR 0xD8, CHR 0xD9, CHR 0xDA, CHR 0xDB, CHR 0xDC, CHR 0xDD, CHR 0xDE]"

definition lower_letters :: string where
  "lower_letters = ''abcdefghijklmnopqrstuvwxyz'' @
     [CHR 0xE0, CHR 0xE1, CHR 0xE2, CHR 0xE3, CHR 0xE4, CHR 0xE5, CHR 0xE6, CHR 0xE7,
      CHR 0xE8, CHR 0xE9, CHR 0xEA, CHR 0xEB, CHR 0xEC, CHR 0xED, CHR 0xEE, CHR 0xEF,
      CHR 0xF0, CHR 0xF1, CHR 0xF2, CHR 0xF3, CHR 0xF4, CHR 0xF5, CHR 0xF6,
      CHR 0xF8, CHR 0xF9, CHR 0xFA, CHR 0xFB, CHR 0xFC, CHR 0xFD, CHR 0xFE]"

definition lower_char :: "char \<Rightarrow> char" where
  "lower_char c =
     (case map_of (zip upper_letters lower_letters) c of
        None \<Rightarrow> c
      | Some d \<Rightarrow> d)"

definition lower :: "string \<Rightarrow> string" where
  "lower s = map lower_char s"

text \<open>\<^verbatim>\<open>s.startswith(p)\<close>.\<close>

definition startswith :: "string \<Rightarrow> string \<Rightarrow> bool" where
  "startswith s p = (take (length p) s = p)"

text \<open>\<^verbatim>\<open>s.lstrip("-")\<close>, \<^verbatim>\<open>s.isdigit()\<close> and \<^verbatim>\<open>s.isdecimal()\<close>.\<close>

definition lstrip_minus :: "string \<Rightarrow> string" where
  "lstrip_minus s = dropWhile (\<lambda>c. c = CHR ''-'') s"

definition isdigit :: "string \<Rightarrow> bool" where
  "isdigit s = (s \<noteq> [] \<and> list_all is_digit_char s)"

definition isdecimal :: "string \<Rightarrow> bool" where
  "isdecimal s = (s \<noteq> [] \<and> list_all is_digit s)"

text \<open>\<^verbatim>\<open>" ".join(xs)\<close>.\<close>

fun join_sp :: "string list \<Rightarrow> string" where
  "join_sp [] = []"
| "join_sp [x] = x"
| "join_sp (x # y # ys) = x @ CHR '' '' # join_sp (y # ys)"

subsection \<open>Decimal text of an integer: \<^verbatim>\<open>str(n)\<close>\<close>

definition digit_char :: "nat \<Rightarrow> char" where
  "digit_char d = ''0123456789'' ! d"

fun str_nat :: "nat \<Rightarrow> string" where
  "str_nat n = (if n < 10 then [digit_char n] else str_nat (n div 10) @ [digit_char (n mod 10)])"

declare str_nat.simps [simp del]

definition str_int :: "int \<Rightarrow> string" where
  "str_int i = (if i < 0 then CHR ''-'' # str_nat (nat (- i)) else str_nat (nat i))"

subsection \<open>Parsing an integer: \<^verbatim>\<open>int(s)\<close>\<close>

text \<open>
  \<^verbatim>\<open>int(s)\<close> of a string: blanks at both ends are dropped, one sign \<^verbatim>\<open>+\<close> or \<^verbatim>\<open>-\<close> may
  lead, then come decimal digits, where single underscores may stand between digits.
  Anything else raises \<^verbatim>\<open>ValueError\<close>, which is the value \<^const>\<open>None\<close> here. (The limit that
  newer interpreters put on the number of digits is not modelled.)
\<close>

definition digit_val :: "char \<Rightarrow> nat" where
  "digit_val c = (of_char c :: nat) - 48"

text \<open>The digit groups of a numeral body: underscores only between two digits.\<close>

fun grouped :: "string \<Rightarrow> bool" where
  "grouped [] = False"
| "grouped [c] = is_digit c"
| "grouped (c # d # r) =
     (if is_digit c then
        (if d = CHR ''_'' then grouped r else grouped (d # r))
      else False)"

definition digits_value :: "string \<Rightarrow> nat" where
  "digits_value s = foldl (\<lambda>a c. 10 * a + digit_val c) 0 (filter is_digit s)"

definition parse_nat :: "string \<Rightarrow> nat option" where
  "parse_nat s = (if grouped s then Some (digits_value s) else None)"

definition py_int :: "string \<Rightarrow> int option" where
  "py_int s =
     (case strip s of
        [] \<Rightarrow> None
      | c # r \<Rightarrow>
          if c = CHR ''-'' then map_option (\<lambda>n. - int n) (parse_nat r)
          else if c = CHR ''+'' then map_option int (parse_nat r)
          else map_option int (parse_nat (c # r)))"

section \<open>The worksheets\<close>

text \<open>
  A worksheet is its grid of cell texts, row after row, the header row first
  (\<^verbatim>\<open>get_all_values()\<close>). A number written to a cell reads back as its decimal text.
  The calls of the worksheet library are taken to succeed; a failure of the storage or
  of the messaging service is outside this model.
  The registry \<^verbatim>\<open>ws_items\<close> has the columns item, total, note; the ledger \<^verbatim>\<open>ws_tx\<close> has
  ts, group_id, user_id, user_name, item, delta, note.
\<close>

type_synonym row = "string list"
type_synonym sheet = "row list"

record store =
  ws_items :: sheet
  ws_tx :: sheet

definition items_header :: row where
  "items_header = [''item'', ''total'', ''note'']"

definition tx_header :: row where
  "tx_header = [''ts'', ''group_id'', ''user_id'', ''user_name'', ''item'', ''delta'', ''note'']"

subsection \<open>The folds over the ledger\<close>

text \<open>
  \<^verbatim>\<open>sum_borrowed\<close> (lines 72-79) and \<^verbatim>\<open>user_borrowed\<close> (lines 81-88): the loop over
  \<^verbatim>\<open>rows[1:]\<close> with the accumulator \<^verbatim>\<open>s\<close>; \<^verbatim>\<open>try: s += int(r[5])\<close> with \<^verbatim>\<open>except: pass\<close>
  leaves \<^verbatim>\<open>s\<close> as it is when the cell does not parse. The user id a caller passes is
  \<^verbatim>\<open>event.source.user_id\<close>, a string or \<^verbatim>\<open>None\<close>; no cell equals \<^verbatim>\<open>None\<close>.
\<close>

fun sum_borrowed_loop :: "string \<Rightarrow> int \<Rightarrow> sheet \<Rightarrow> int" where
  "sum_borrowed_loop item s [] = s"
| "sum_borrowed_loop item s (r # rows) =
     sum_borrowed_loop item
       (if length r \<ge> 6 \<and> r ! 4 = item then
          (case py_int (r ! 5) of Some d \<Rightarrow> s + d | None \<Rightarrow> s)
        else s)
       rows"

definition sum_borrowed :: "sheet \<Rightarrow> string \<Rightarrow> int" where
  "sum_borrowed tx item = sum_borrowed_loop item 0 (drop 1 tx)"

fun user_borrowed_loop :: "string option \<Rightarrow> string \<Rightarrow> int \<Rightarrow> sheet \<Rightarrow> int" where
  "user_borrowed_loop user_id item s [] = s"
| "user_borrowed_loop user_id item s (r # rows) =
     user_borrowed_loop user_id item
       (if length r \<ge> 6 \<and> Some (r ! 2) = user_id \<and> r ! 4 = item then
          (case py_int (r ! 5) of Some d \<Rightarrow> s + d | None \<Rightarrow> s)
        else s)
       rows"

definition user_borrowed :: "sheet \<Rightarrow> string option \<Rightarrow> string \<Rightarrow> int" where
  "user_borrowed tx user_id item = user_borrowed_loop user_id item 0 (drop 1 tx)"

text \<open>What a row contributes, in the words of the specification: its delta when that
  is an integer, 0 otherwise.\<close>

definition delta_or_zero :: "row \<Rightarrow> int" where
  "delta_or_zero r = (case py_int (r ! 5) of Some d \<Rightarrow> d | None \<Rightarrow> 0)"

definition on_item :: "string \<Rightarrow> row \<Rightarrow> bool" where
  "on_item item r = (length r \<ge> 6 \<and> r ! 4 = item)"

definition by_user :: "string option \<Rightarrow> row \<Rightarrow> bool" where
  "by_user user_id r = (length r \<ge> 6 \<and> Some (r ! 2) = user_id)"

subsection \<open>The registry\<close>

datatype error = ValueError | OverflowError

text \<open>
  The values \<^verbatim>\<open>get_all_records()\<close> hands out: a text, an integer, or a float. Of a float
  the program takes only \<^verbatim>\<open>str\<close> and \<^verbatim>\<open>int\<close>, so a float is kept as these two: its text and
  its integer part (\<^verbatim>\<open>int\<close> raises for an infinity and for a nan).
\<close>

datatype pyval = PyStr string | PyInt int | PyFloat string "error + int"

text \<open>
  \<^verbatim>\<open>float(s)\<close> belongs to the interpreter and is a parameter: \<^const>\<open>None\<close> when it raises
  \<^verbatim>\<open>ValueError\<close>, else \<^verbatim>\<open>str\<close> and \<^verbatim>\<open>int\<close> of the float.
\<close>

type_synonym float_reader = "string \<Rightarrow> (string \<times> (error + int)) option"

text \<open>
  The worksheet library's \<^verbatim>\<open>numericise\<close>, which \<^verbatim>\<open>get_all_records()\<close> applies to every cell
  below the header: a cell with an underscore stays a text; otherwise \<^verbatim>\<open>int\<close> is tried,
  then \<^verbatim>\<open>float\<close>, and a cell that neither reads stays a text (so \<^verbatim>\<open>007\<close> reads as 7).
\<close>

definition numericise :: "float_reader \<Rightarrow> string \<Rightarrow> pyval" where
  "numericise fl v =
     (if CHR ''_'' \<in> set v then PyStr v
      else
        (case py_int v of
           Some n \<Rightarrow> PyInt n
         | None \<Rightarrow> (case fl v of Some (t, i) \<Rightarrow> PyFloat t i | None \<Rightarrow> PyStr v)))"

text \<open>\<^verbatim>\<open>str(v)\<close> and \<^verbatim>\<open>int(v)\<close> of such a value.\<close>

fun py_str :: "pyval \<Rightarrow> string" where
  "py_str (PyStr s) = s"
| "py_str (PyInt n) = str_int n"
| "py_str (PyFloat t i) = t"

fun int_of_pyval :: "pyval \<Rightarrow> error + int" where
  "int_of_pyval (PyStr s) = (case py_int s of None \<Rightarrow> Inl ValueError | Some n \<Rightarrow> Inr n)"
| "int_of_pyval (PyInt n) = Inr n"
| "int_of_pyval (PyFloat t i) = i"

text \<open>
  \<^verbatim>\<open>get_all_records()\<close>: every row below the header as a dictionary keyed by the header
  cells, the cells numericised. \<^verbatim>\<open>dict(zip(keys, row))\<close> keeps the last value of a
  repeated key.
\<close>

type_synonym record_row = "(string \<times> pyval) list"

definition get_all_records :: "float_reader \<Rightarrow> sheet \<Rightarrow> record_row list" where
  "get_all_records fl ws =
     (case ws of [] \<Rightarrow> [] | keys # rows \<Rightarrow> map (\<lambda>r. zip keys (map (numericise fl) r)) rows)"

definition dict_get :: "record_row \<Rightarrow> string \<Rightarrow> pyval option" where
  "dict_get r k = map_of (rev r) k"

record item_info =
  item_name :: string
  item_total :: int
  item_note :: "pyval option"

text \<open>\<^verbatim>\<open>str(r.get("item"))\<close>: a missing key reads \<^verbatim>\<open>None\<close>, whose text is "None".\<close>

definition str_get_item :: "record_row \<Rightarrow> string" where
  "str_get_item r = (case dict_get r ''item'' of None \<Rightarrow> ''None'' | Some v \<Rightarrow> py_str v)"

text \<open>\<^verbatim>\<open>int(r.get("total", 0))\<close>: 0 for a missing key, an exception for a value that
  \<^verbatim>\<open>int\<close> refuses.\<close>

definition int_get_total :: "record_row \<Rightarrow> error + int" where
  "int_get_total r = (case dict_get r ''total'' of None \<Rightarrow> Inr 0 | Some v \<Rightarrow> int_of_pyval v)"

text \<open>\<^verbatim>\<open>get_item\<close> (lines 90-95): the first record whose item cell is the name.\<close>

fun get_item_loop :: "string \<Rightarrow> record_row list \<Rightarrow> error + item_info option" where
  "get_item_loop item [] = Inr None"
| "get_item_loop item (r # rows) =
     (if str_get_item r = item then
        (case int_get_total r of
           Inl e \<Rightarrow> Inl e
         | Inr t \<Rightarrow> Inr (Some \<lparr>item_name = item, item_total = t, item_note = dict_get r ''note''\<rparr>))
      else get_item_loop item rows)"

definition get_item :: "float_reader \<Rightarrow> sheet \<Rightarrow> string \<Rightarrow> error + item_info option" where
  "get_item fl ws item = get_item_loop item (get_all_records fl ws)"

text \<open>\<^verbatim>\<open>status_all\<close> (lines 97-106).\<close>

fun status_all_loop :: "sheet \<Rightarrow> record_row list \<Rightarrow> error + (string \<times> int \<times> int \<times> int) list" where
  "status_all_loop tx [] = Inr []"
| "status_all_loop tx (r # rows) =
     (let item = str_get_item r in
      case int_get_total r of
        Inl e \<Rightarrow> Inl e
      | Inr tot \<Rightarrow>
          (let borrowed = sum_borrowed tx item;
               avail = tot - borrowed
           in case status_all_loop tx rows of
                Inl e \<Rightarrow> Inl e
              | Inr info \<Rightarrow> Inr ((item, tot, borrowed, avail) # info)))"

definition status_all :: "float_reader \<Rightarrow> store \<Rightarrow> error + (string \<times> int \<times> int \<times> int) list" where
  "status_all fl st = status_all_loop (ws_tx st) (get_all_records fl (ws_items st))"

text \<open>
  \<^verbatim>\<open>col_values(1)\<close>: the first cell of every row from row 1 on, the header row included,
  without the empty cells at the end of the column.
\<close>

definition first_cell :: "row \<Rightarrow> string" where
  "first_cell r = (case r of [] \<Rightarrow> [] | c # _ \<Rightarrow> c)"

definition col_values_1 :: "sheet \<Rightarrow> string list" where
  "col_values_1 ws = rev (dropWhile (\<lambda>c. c = []) (rev (map first_cell ws)))"

text \<open>\<^verbatim>\<open>xs.index(x)\<close>: the first position of \<open>x\<close>; \<^verbatim>\<open>ValueError\<close> is \<^const>\<open>None\<close>.\<close>

fun index_of :: "'a list \<Rightarrow> 'a \<Rightarrow> nat option" where
  "index_of [] x = None"
| "index_of (y # ys) x = (if y = x then Some 0 else map_option Suc (index_of ys x))"

text \<open>\<^verbatim>\<open>ws.update(f"B{idx}:C{idx}", [[b, c]])\<close>: columns B and C of the row numbered
  \<open>idx\<close>, counted from 1.\<close>

definition set_BC :: "string \<Rightarrow> string \<Rightarrow> row \<Rightarrow> row" where
  "set_BC b c r = first_cell r # b # c # drop 3 r"

definition update_BC :: "nat \<Rightarrow> string \<Rightarrow> string \<Rightarrow> sheet \<Rightarrow> sheet" where
  "update_BC idx b c ws = ws[idx - 1 := set_BC b c (ws ! (idx - 1))]"

definition append_row :: "row \<Rightarrow> sheet \<Rightarrow> sheet" where
  "append_row r ws = ws @ [r]"

text \<open>\<^verbatim>\<open>upsert_item\<close> (lines 60-66); \<open>tot\<close> is the parameter \<^verbatim>\<open>total\<close>.\<close>

definition upsert_item :: "string \<Rightarrow> int \<Rightarrow> string \<Rightarrow> sheet \<Rightarrow> sheet" where
  "upsert_item item tot note ws =
     (let items = col_values_1 ws in
      case index_of items item of
        Some i \<Rightarrow> (let idx = i + 1 in update_BC idx (str_int tot) note ws)
      | None \<Rightarrow> append_row [item, str_int tot, note] ws)"

text \<open>A value that is a string or \<^verbatim>\<open>None\<close>: written to a cell, \<^verbatim>\<open>None\<close> leaves the cell
  empty; put into a text by an f-string, \<^verbatim>\<open>None\<close> reads "None".\<close>

definition opt_cell :: "string option \<Rightarrow> string" where
  "opt_cell v = (case v of None \<Rightarrow> [] | Some s \<Rightarrow> s)"

definition opt_str :: "string option \<Rightarrow> string" where
  "opt_str v = (case v of None \<Rightarrow> ''None'' | Some s \<Rightarrow> s)"

text \<open>\<^verbatim>\<open>add_tx\<close> (lines 68-70); the time stamp is the clock's, a parameter here. The
  group id, the user id and the user name may be \<^verbatim>\<open>None\<close>.\<close>

definition add_tx ::
  "string \<Rightarrow> string option \<Rightarrow> string option \<Rightarrow> string option \<Rightarrow> string \<Rightarrow> int \<Rightarrow> string
     \<Rightarrow> sheet \<Rightarrow> sheet" where
  "add_tx ts gid uid uname item delta note tx =
     append_row [ts, opt_cell gid, opt_cell uid, opt_cell uname, item, str_int delta, note] tx"

section \<open>The message handler\<close>

text \<open>
  What the handler is given from outside: the tokenizer \<^verbatim>\<open>shlex.split\<close> (\<^const>\<open>None\<close> when
  it raises \<^verbatim>\<open>ValueError\<close>), the configured \<^verbatim>\<open>ALLOWED_GROUPS\<close>, the clock, the draw of
  \<^verbatim>\<open>random.choice\<close>, the two profile lookups of the messaging API (the display name of
  the profile, \<^const>\<open>None\<close> when the call raises; the user id they are given may be \<^verbatim>\<open>None\<close>)
  and the interpreter's \<^verbatim>\<open>float\<close>.
\<close>

record env =
  shlex_split :: "string \<Rightarrow> string list option"
  allowed_groups :: "string list"
  now_ts :: string
  rnd :: nat
  get_group_member_profile :: "string \<Rightarrow> string option \<Rightarrow> string option"
  get_profile :: "string option \<Rightarrow> string option"
  py_float :: float_reader

text \<open>The event: \<^verbatim>\<open>event.message.text\<close>, and \<^verbatim>\<open>group_id\<close> and \<^verbatim>\<open>user_id\<close> of
  \<^verbatim>\<open>event.source\<close>. Every source has the attribute \<^verbatim>\<open>user_id\<close>, whose value may be \<^verbatim>\<open>None\<close>;
  \<^verbatim>\<open>group_id\<close> is \<^const>\<open>None\<close> also for a source without that attribute.\<close>

record event =
  message_text :: "string option"
  src_group_id :: "string option"
  src_user_id :: "string option"

text \<open>
  The replies, one constructor for each text the handler builds, with the values it
  puts into the text:
  \<^item> \<open>Choice\<close>: the option drawn by \<^verbatim>\<open>!yesno\<close>, \<^verbatim>\<open>!trun\<close>, \<^verbatim>\<open>!pick\<close>; \<open>UsageTrun\<close>: line 161;
  \<^item> \<open>Help\<close>: \<^verbatim>\<open>HELP_MSG\<close>; \<open>GroupId\<close>: line 170 (\<^const>\<open>None\<close> for the "not a group" text);
    \<open>UserId\<close>: line 174;
  \<^item> \<open>UsageAdditem\<close>: line 179; \<open>ItemSet item total\<close>: line 183;
  \<^item> \<open>StatusNoItem item\<close>: line 190; \<open>StatusOne item total borrowed avail\<close>: line 193;
    \<open>StatusAll\<close>: lines 195-196 (the empty list is the "no items yet" text);
  \<^item> \<open>UsageBorrowReturn\<close>: line 201; \<open>ItemNotFound item\<close>: line 206;
    \<open>InvalidQuantity\<close>: lines 212 and 219; \<open>InsufficientStock item avail qty\<close>: line 213;
    \<open>BorrowOk item qty name\<close>: line 216; \<open>NothingToReturn item\<close>: line 220;
    \<open>ReturnOk item real name extra\<close>: lines 224-225, where \<open>extra\<close> is \<^const>\<open>None\<close> for
    the empty suffix and \<open>Some have\<close> for the suffix "you only hold \<open>have\<close>, adjusted";
  \<^item> \<open>MineReport\<close>: lines 236-237 (the empty list is the "none" text).
\<close>

datatype reply =
    Choice string
  | UsageTrun
  | Help
  | GroupId "string option"
  | UserId string
  | UsageAdditem
  | ItemSet string int
  | StatusNoItem string
  | StatusOne string int int int
  | StatusAll "(string \<times> int \<times> int \<times> int) list"
  | UsageBorrowReturn
  | ItemNotFound string
  | InvalidQuantity
  | InsufficientStock string int int
  | BorrowOk string int string
  | NothingToReturn string
  | ReturnOk string int string "int option"
  | MineReport "(string \<times> int) list"

text \<open>
  How a call of the handler ends: \<open>Reply\<close> when \<^verbatim>\<open>reply_message\<close> is called with the text,
  \<open>Silent\<close> when the handler returns without replying, \<open>Logged\<close> when an exception is
  caught and logged by the \<^verbatim>\<open>try\<close> of lines 165-247 (no reply), \<open>Raised\<close> when it leaves
  the handler.
\<close>

datatype outcome = Reply reply | Silent | Logged error | Raised error

text \<open>\<^verbatim>\<open>random.choice(xs)\<close> of a list that is not empty.\<close>

definition choice :: "env \<Rightarrow> 'a list \<Rightarrow> 'a" where
  "choice e xs = xs ! (rnd e mod length xs)"

text \<open>\<^verbatim>\<open>getattr(event.source, "user_id", "unknown")\<close>: the attribute is there, so the
  default is never taken and the result is the attribute's value, a string or \<^verbatim>\<open>None\<close>.\<close>

definition uid_of :: "event \<Rightarrow> string option" where
  "uid_of ev = src_user_id ev"

text \<open>\<^verbatim>\<open>_display_name\<close> (lines 109-116): the profile of the group member when the source
  has a group id, else the user's profile; an exception gives \<^verbatim>\<open>None\<close>.\<close>

definition display_name :: "env \<Rightarrow> event \<Rightarrow> string option" where
  "display_name e ev =
     (let uid = src_user_id ev in
      case src_group_id ev of
        None \<Rightarrow> get_profile e uid
      | Some gid \<Rightarrow> if gid \<noteq> [] then get_group_member_profile e gid uid else get_profile e uid)"

text \<open>\<^verbatim>\<open>_display_name(event) or uid\<close>.\<close>

definition name_of :: "env \<Rightarrow> event \<Rightarrow> string option" where
  "name_of e ev =
     (case display_name e ev of
        None \<Rightarrow> uid_of ev
      | Some n \<Rightarrow> if n \<noteq> [] then Some n else uid_of ev)"

text \<open>\<^verbatim>\<open>ALLOWED_GROUPS and gid not in ALLOWED_GROUPS\<close> (line 153).\<close>

definition group_refused :: "env \<Rightarrow> string option \<Rightarrow> bool" where
  "group_refused e gid =
     (allowed_groups e \<noteq> [] \<and> (case gid of None \<Rightarrow> True | Some g \<Rightarrow> g \<notin> set (allowed_groups e)))"

text \<open>\<^verbatim>\<open>len(tokens) < 3 or not tokens[2].lstrip("-").isdigit()\<close> (lines 178 and 200).\<close>

definition malformed :: "string list \<Rightarrow> bool" where
  "malformed tokens = (length tokens < 3 \<or> \<not> isdigit (lstrip_minus (tokens ! 2)))"

text \<open>\<^verbatim>\<open>" ".join(tokens[3:]) if len(tokens)>3 else ""\<close>.\<close>

definition note_of :: "string list \<Rightarrow> string" where
  "note_of tokens = (if length tokens > 3 then join_sp (drop 3 tokens) else [])"

text \<open>The branch \<^verbatim>\<open>!additem\<close> (lines 176-183).\<close>

definition handle_additem :: "env \<Rightarrow> string \<Rightarrow> store \<Rightarrow> outcome \<times> store" where
  "handle_additem e text st =
     (case shlex_split e text of
        None \<Rightarrow> (Logged ValueError, st)
      | Some tokens \<Rightarrow>
          if malformed tokens then (Reply UsageAdditem, st)
          else
            (case py_int (tokens ! 2) of
               None \<Rightarrow> (Logged ValueError, st)
             | Some tot \<Rightarrow>
                 (let item = tokens ! 1; note = note_of tokens
                  in (Reply (ItemSet item tot),
                      st\<lparr>ws_items := upsert_item item tot note (ws_items st)\<rparr>))))"

text \<open>The branch \<^verbatim>\<open>!status\<close> (lines 185-196).\<close>

definition handle_status :: "env \<Rightarrow> string \<Rightarrow> store \<Rightarrow> outcome \<times> store" where
  "handle_status e text st =
     (case shlex_split e text of
        None \<Rightarrow> (Logged ValueError, st)
      | Some tokens \<Rightarrow>
          if length tokens \<ge> 2 then
            (let item = tokens ! 1 in
             case get_item (py_float e) (ws_items st) item of
               Inl err \<Rightarrow> (Logged err, st)
             | Inr None \<Rightarrow> (Reply (StatusNoItem item), st)
             | Inr (Some r) \<Rightarrow>
                 (let borrowed = sum_borrowed (ws_tx st) item;
                      avail = item_total r - borrowed
                  in (Reply (StatusOne item (item_total r) borrowed avail), st)))
          else
            (case status_all (py_float e) st of
               Inl err \<Rightarrow> (Logged err, st)
             | Inr info \<Rightarrow> (Reply (StatusAll info), st)))"

text \<open>The branch \<^verbatim>\<open>!borrow\<close> / \<^verbatim>\<open>!return\<close> (lines 198-225).\<close>

definition handle_borrow_return ::
  "env \<Rightarrow> event \<Rightarrow> string \<Rightarrow> string \<Rightarrow> store \<Rightarrow> outcome \<times> store" where
  "handle_borrow_return e ev lowered text st =
     (case shlex_split e text of
        None \<Rightarrow> (Logged ValueError, st)
      | Some tokens \<Rightarrow>
          if malformed tokens then (Reply UsageBorrowReturn, st)
          else
            (case py_int (tokens ! 2) of
               None \<Rightarrow> (Logged ValueError, st)
             | Some qty \<Rightarrow>
                 (let item = tokens ! 1; note = note_of tokens in
                  case get_item (py_float e) (ws_items st) item of
                    Inl err \<Rightarrow> (Logged err, st)
                  | Inr None \<Rightarrow> (Reply (ItemNotFound item), st)
                  | Inr (Some r) \<Rightarrow>
                      (let gid = src_group_id ev; uid = uid_of ev; name = name_of e ev in
                       if startswith lowered ''!borrow'' then
                         (let borrowed = sum_borrowed (ws_tx st) item;
                              avail = item_total r - borrowed
                          in if qty \<le> 0 then (Reply InvalidQuantity, st)
                             else if avail < qty then (Reply (InsufficientStock item avail qty), st)
                             else (Reply (BorrowOk item qty (opt_str name)),
                                   st\<lparr>ws_tx := add_tx (now_ts e) gid uid name item qty note (ws_tx st)\<rparr>))
                       else
                         (let have = user_borrowed (ws_tx st) uid item
                          in if qty \<le> 0 then (Reply InvalidQuantity, st)
                             else if have \<le> 0 then (Reply (NothingToReturn item), st)
                             else
                               (let real = min qty have;
                                    extra = (if real = qty then None else Some have)
                                in (Reply (ReturnOk item real (opt_str name) extra),
                                    st\<lparr>ws_tx := add_tx (now_ts e) gid uid name item (- real) note (ws_tx st)\<rparr>)))))))"

text \<open>
  The branch \<^verbatim>\<open>!mine\<close> (lines 227-237). The dictionary \<^verbatim>\<open>tally\<close> keeps its keys in the
  order of their first insertion, so it is an association list updated in place;
  \<open>tally_get tally k\<close> is \<^verbatim>\<open>tally.get(k, 0)\<close>.
\<close>

definition tally_get :: "(string \<times> int) list \<Rightarrow> string \<Rightarrow> int" where
  "tally_get tally k = (case map_of tally k of None \<Rightarrow> 0 | Some v \<Rightarrow> v)"

fun tally_loop :: "string option \<Rightarrow> (string \<times> int) list \<Rightarrow> sheet \<Rightarrow> (string \<times> int) list" where
  "tally_loop uid tally [] = tally"
| "tally_loop uid tally (r # rows) =
     tally_loop uid
       (if length r \<ge> 6 \<and> Some (r ! 2) = uid then
          (let delta = (case py_int (r ! 5) of Some d \<Rightarrow> d | None \<Rightarrow> 0)
           in AList.update (r ! 4) (tally_get tally (r ! 4) + delta) tally)
        else tally)
       rows"

definition mine_lines :: "sheet \<Rightarrow> string option \<Rightarrow> (string \<times> int) list" where
  "mine_lines tx uid = filter (\<lambda>(k, v). v > 0) (tally_loop uid [] (drop 1 tx))"

definition handle_mine :: "event \<Rightarrow> store \<Rightarrow> outcome \<times> store" where
  "handle_mine ev st = (Reply (MineReport (mine_lines (ws_tx st) (uid_of ev))), st)"

text \<open>\<^verbatim>\<open>(event.message.text or "").strip()\<close> (line 148).\<close>

definition text_of :: "event \<Rightarrow> string" where
  "text_of ev = strip (case message_text ev of None \<Rightarrow> [] | Some t \<Rightarrow> t)"

text \<open>\<^verbatim>\<open>handle_text\<close> (lines 135-247).\<close>

definition handle_text :: "env \<Rightarrow> event \<Rightarrow> store \<Rightarrow> outcome \<times> store" where
  "handle_text e ev st =
     (let text = text_of ev;
          lowered = lower text;
          gid = src_group_id ev
      in if group_refused e gid then (Silent, st)
         else if startswith lowered ''!yesno'' then (Reply (Choice (choice e [''Yes'', ''No''])), st)
         else if startswith lowered ''!trun'' \<or> startswith lowered ''!pick'' then
           (case shlex_split e text of
              None \<Rightarrow> (Raised ValueError, st)
            | Some tokens \<Rightarrow>
                (let opts = drop 1 tokens
                 in (Reply (if opts \<noteq> [] then Choice (choice e opts) else UsageTrun), st)))
         else if startswith lowered ''!help'' then (Reply Help, st)
         else if startswith lowered ''!gid'' then
           (Reply (GroupId (case gid of None \<Rightarrow> None | Some g \<Rightarrow> if g \<noteq> [] then Some g else None)), st)
         else if startswith lowered ''!uid'' then (Reply (UserId (opt_str (uid_of ev))), st)
         else if startswith lowered ''!additem'' then handle_additem e text st
         else if startswith lowered ''!status'' then handle_status e text st
         else if startswith lowered ''!borrow'' \<or> startswith lowered ''!return'' then
           handle_borrow_return e ev lowered text st
         else if startswith lowered ''!mine'' then handle_mine ev st
         else (Silent, st))"

subsection \<open>A tokenizer and an environment for the worked examples\<close>

text \<open>
  Splitting at the blanks \<^verbatim>\<open>shlex\<close> knows (space, tab, carriage return, line feed): what
  \<^verbatim>\<open>shlex.split\<close> returns for a text without quotes and backslashes.
\<close>

definition shlex_ws :: "char \<Rightarrow> bool" where
  "shlex_ws c = (c \<in> set [CHR '' '', CHR 0x09, CHR 0x0D, CHR 0x0A])"

fun split_acc :: "string \<Rightarrow> string list \<Rightarrow> string \<Rightarrow> string list" where
  "split_acc cur out [] = rev (if cur = [] then out else rev cur # out)"
| "split_acc cur out (c # cs) =
     (if shlex_ws c then split_acc [] (if cur = [] then out else rev cur # out) cs
      else split_acc (c # cur) out cs)"

definition split_blanks :: "string \<Rightarrow> string list option" where
  "split_blanks s = Some (split_acc [] [] s)"

text \<open>An environment without group restriction, in which only the user \<^verbatim>\<open>U1\<close> has a
  profile, and in which \<^verbatim>\<open>float\<close> reads no cell (no cell of the examples below is the
  text of a float); an event of a user outside any group; an empty registry and ledger.\<close>

definition env0 :: env where
  "env0 = \<lparr>shlex_split = split_blanks, allowed_groups = [], now_ts = ''2024-05-01T09:00:00+08:00'',
           rnd = 0, get_group_member_profile = (\<lambda>g u. None),
           get_profile = (\<lambda>u. if u = Some ''U1'' then Some ''Ann'' else None),
           py_float = (\<lambda>s. None)\<rparr>"

definition user_event :: "string \<Rightarrow> string \<Rightarrow> event" where
  "user_event u t = \<lparr>message_text = Some t, src_group_id = None, src_user_id = Some u\<rparr>"

definition store0 :: store where
  "store0 = \<lparr>ws_items = [items_header], ws_tx = [tx_header]\<rparr>"

text \<open>A ledger with a delta that is no number (\<^verbatim>\<open>two\<close>) and a row without delta cell.\<close>

definition tx1 :: sheet where
  "tx1 = [tx_header,
          [''t1'', ''G1'', ''U1'', ''Ann'', ''cam'', ''2'', []],
          [''t2'', ''G2'', ''U2'', ''Bob'', ''cam'', ''two'', []],
          [''t3'', ''G2'', ''U2'', ''Bob'', ''cam'', ''1'', ''lab''],
          [''t4'', ''G1'', ''U1'', ''Ann'', ''cam''],
          [''t5'', ''G1'', ''U1'', ''Ann'', ''tripod'', ''3'', []],
          [''t6'', ''G1'', ''U1'', ''Ann'', ''tripod'', ''-3'', []],
          [''t7'', ''G1'', ''U1'', ''Ann'', ''cable'', ''1'', []]]"

text \<open>The prefixes \<^verbatim>\<open>handle_text\<close> tests, in its order (lines 157-227).\<close>

definition handler_prefixes :: "string list" where
  "handler_prefixes = [''!yesno'', ''!trun'', ''!pick'', ''!help'', ''!gid'', ''!uid'',
                       ''!additem'', ''!status'', ''!borrow'', ''!return'', ''!mine'']"

text \<open>The rejections the specification names: invalid quantity, insufficient stock,
  item not found (for \<^verbatim>\<open>!borrow\<close>, \<^verbatim>\<open>!return\<close> and \<^verbatim>\<open>!status\<close>), nothing to return, and
  malformed arguments (the two usage texts).\<close>

fun is_rejection :: "reply \<Rightarrow> bool" where
  "is_rejection InvalidQuantity = True"
| "is_rejection (InsufficientStock item avail qty) = True"
| "is_rejection (ItemNotFound item) = True"
| "is_rejection (StatusNoItem item) = True"
| "is_rejection (NothingToReturn item) = True"
| "is_rejection UsageAdditem = True"
| "is_rejection UsageBorrowReturn = True"
| "is_rejection r = False"

text \<open>A registry with three cameras, two of them borrowed by \<^verbatim>\<open>U1\<close>.\<close>

definition store1 :: store where
  "store1 = \<lparr>ws_items = [items_header, [''cam'', ''3'', []]],
             ws_tx = [tx_header, [''t1'', [], ''U1'', ''Ann'', ''cam'', ''2'', []]]\<rparr>"

text \<open>The ledger of scenario C of the specification, with a row of a second user.\<close>

definition tx2 :: sheet where
  "tx2 = [tx_header,
          [''t1'', ''G1'', ''U1'', ''Ann'', ''tripod'', ''3'', []],
          [''t2'', ''G1'', ''U1'', ''Ann'', ''tripod'', ''-3'', []],
          [''t3'', ''G1'', ''U1'', ''Ann'', ''cable'', ''1'', []],
          [''t4'', ''G1'', ''U2'', ''Bob'', ''tripod'', ''1'', []]]"

text \<open>A cell text that \<^verbatim>\<open>get_all_records()\<close> hands out as a value whose \<^verbatim>\<open>str\<close> is the text
  again: a text that reads as no number, or the decimal text of an integer.\<close>

definition reads_back :: "float_reader \<Rightarrow> string \<Rightarrow> bool" where
  "reads_back fl v = (py_str (numericise fl v) = v)"

text \<open>Two rows that differ at most in the cell \<^verbatim>\<open>group_id\<close> (column 1).\<close>

definition gid_variant :: "row \<Rightarrow> row \<Rightarrow> bool" where
  "gid_variant r r' = (r' = r[1 := r' ! 1])"

section \<open>Properties of the integer texts\<close>

lemma is_digit_cases:
  "is_digit c \<Longrightarrow> \<not> is_space c \<and> c \<noteq> CHR ''-'' \<and> c \<noteq> CHR ''+'' \<and> c \<noteq> CHR ''_''"
  by (auto simp: is_digit_def is_space_def)

lemma strip_id:
  assumes "s \<noteq> []" "\<not> is_space (hd s)" "\<not> is_space (last s)"
  shows "strip s = s"
proof -
  from assms have front: "dropWhile is_space s = s" by (cases s) auto
  from assms obtain ys y where "s = ys @ [y]" by (cases s rule: rev_cases) auto
  with assms have rear: "dropWhile is_space (rev s) = rev s" by simp
  show ?thesis by (simp add: strip_def front rear)
qed

lemma digit_char_is_digit: "d < 10 \<Longrightarrow> is_digit (digit_char d)"
proof -
  assume "d < 10"
  then have "d \<in> {0,1,2,3,4,5,6,7,8,9}" by auto
  then show ?thesis by (auto simp: digit_char_def is_digit_def)
qed

lemma digit_val_digit_char: "d < 10 \<Longrightarrow> digit_val (digit_char d) = d"
proof -
  assume "d < 10"
  then have "d \<in> {0,1,2,3,4,5,6,7,8,9}" by auto
  then show ?thesis by (auto simp: digit_char_def digit_val_def)
qed

lemma str_nat_digits: "str_nat n \<noteq> [] \<and> list_all is_digit (str_nat n)"
proof (induction n rule: str_nat.induct)
  case (1 n)
  show ?case
  proof (cases "n < 10")
    case True
    then show ?thesis by (simp add: str_nat.simps [of n] digit_char_is_digit)
  next
    case False
    with 1 show ?thesis by (simp add: str_nat.simps [of n] digit_char_is_digit)
  qed
qed

lemma isdecimal_str_nat: "isdecimal (str_nat n)"
  by (simp add: isdecimal_def str_nat_digits)

lemma grouped_digits: "s \<noteq> [] \<Longrightarrow> list_all is_digit s \<Longrightarrow> grouped s"
  by (induction s rule: grouped.induct) (auto dest: is_digit_cases)

lemma digits_value_snoc:
  "is_digit c \<Longrightarrow> list_all is_digit s \<Longrightarrow>
   digits_value (s @ [c]) = 10 * digits_value s + digit_val c"
  by (simp add: digits_value_def)

lemma digits_value_str_nat: "digits_value (str_nat n) = n"
proof (induction n rule: str_nat.induct)
  case (1 n)
  show ?case
  proof (cases "n < 10")
    case True
    then show ?thesis
      by (simp add: str_nat.simps [of n] digits_value_def digit_char_is_digit digit_val_digit_char)
  next
    case False
    then have "digits_value (str_nat n) =
        10 * digits_value (str_nat (n div 10)) + digit_val (digit_char (n mod 10))"
      by (simp add: str_nat.simps [of n] digits_value_snoc digit_char_is_digit str_nat_digits)
    with 1 False show ?thesis by (simp add: digit_val_digit_char)
  qed
qed

lemma parse_nat_digits: "isdecimal s \<Longrightarrow> parse_nat s = Some (digits_value s)"
  by (simp add: parse_nat_def isdecimal_def grouped_digits)

lemma isdecimal_ends: "isdecimal s \<Longrightarrow> is_digit (hd s) \<and> is_digit (last s)"
  by (cases s rule: rev_cases) (auto simp: isdecimal_def list_all_iff hd_append)

lemma py_int_digits:
  assumes "isdecimal s"
  shows "py_int s = Some (int (digits_value s))"
proof -
  from assms have ne: "s \<noteq> []" by (simp add: isdecimal_def)
  from assms have e: "is_digit (hd s)" "is_digit (last s)" using isdecimal_ends by auto
  then have "strip s = s" using ne by (simp add: strip_id is_digit_cases)
  moreover obtain c r where s: "s = c # r" using ne by (cases s) auto
  moreover have "c \<noteq> CHR ''-''" "c \<noteq> CHR ''+''" using e s by (auto dest: is_digit_cases)
  ultimately show ?thesis using assms by (simp add: py_int_def parse_nat_digits)
qed

lemma py_int_minus_digits:
  assumes "isdecimal s"
  shows "py_int (CHR ''-'' # s) = Some (- int (digits_value s))"
proof -
  from assms have ne: "s \<noteq> []" by (simp add: isdecimal_def)
  from assms have e: "is_digit (last s)" using isdecimal_ends by auto
  have "\<not> is_space (CHR ''-'')" by (simp add: is_space_def)
  then have "strip (CHR ''-'' # s) = CHR ''-'' # s"
    using ne e by (simp add: strip_id is_digit_cases)
  then show ?thesis using assms by (simp add: py_int_def parse_nat_digits)
qed

text \<open>A number written to a cell is read back by \<^verbatim>\<open>int\<close> as the same number.\<close>

lemma py_int_str_int: "py_int (str_int i) = Some i"
  by (cases "i < 0")
     (simp_all add: str_int_def py_int_digits py_int_minus_digits isdecimal_str_nat digits_value_str_nat)

lemma isdecimal_isdigit: "isdecimal s \<Longrightarrow> isdigit s"
  by (auto simp: isdecimal_def isdigit_def is_digit_char_def list_all_iff)

lemma is_digit_char_cases:
  "is_digit_char c \<Longrightarrow> \<not> is_space c \<and> c \<noteq> CHR ''-'' \<and> c \<noteq> CHR ''+''"
  by (auto simp: is_digit_char_def is_digit_def is_space_def)

lemma isdigit_ends: "isdigit s \<Longrightarrow> is_digit_char (hd s) \<and> is_digit_char (last s)"
  by (cases s rule: rev_cases) (auto simp: isdigit_def list_all_iff hd_append)

lemma str_int_no_underscore: "CHR ''_'' \<notin> set (str_int i)"
proof -
  have "CHR ''_'' \<notin> set (str_nat n)" for n
    using str_nat_digits [of n] is_digit_cases by (auto simp: list_all_iff)
  then show ?thesis by (simp add: str_int_def)
qed

section \<open>Properties of the folds\<close>

lemma sum_borrowed_loop_acc:
  "sum_borrowed_loop item s rows =
     s + sum_list (map delta_or_zero (filter (on_item item) rows))"
  by (induction rows arbitrary: s)
     (auto simp: delta_or_zero_def on_item_def split: option.splits)

lemma user_borrowed_loop_acc:
  "user_borrowed_loop u item s rows =
     s + sum_list (map delta_or_zero (filter (\<lambda>r. by_user u r \<and> on_item item r) rows))"
  by (induction rows arbitrary: s)
     (auto simp: delta_or_zero_def on_item_def by_user_def split: option.splits)

section \<open>Which branch a text takes\<close>

lemma startswith_excl:
  assumes "startswith l p" "startswith l q"
  shows "take (min (length p) (length q)) p = take (min (length p) (length q)) q"
proof -
  have "take (min (length p) (length q)) p = take (min (length p) (length q)) (take (length p) l)"
    using assms(1) by (simp add: startswith_def)
  also have "\<dots> = take (min (length p) (length q)) (take (length q) l)"
    by (simp add: min.commute min.left_commute)
  also have "\<dots> = take (min (length p) (length q)) q"
    using assms(2) by (simp add: startswith_def)
  finally show ?thesis .
qed

lemma not_startswith:
  assumes "startswith l p"
    and "take (min (length p) (length q)) p \<noteq> take (min (length p) (length q)) q"
  shows "\<not> startswith l q"
  using assms startswith_excl by blast

lemma additem_only:
  assumes p: "startswith l ''!additem''"
  shows "\<not> startswith l ''!yesno''" "\<not> startswith l ''!trun''" "\<not> startswith l ''!pick''"
    "\<not> startswith l ''!help''" "\<not> startswith l ''!gid''" "\<not> startswith l ''!uid''"
  by (rule not_startswith [OF p], simp)+

lemma borrow_only:
  assumes p: "startswith l ''!borrow''"
  shows "\<not> startswith l ''!yesno''" "\<not> startswith l ''!trun''" "\<not> startswith l ''!pick''"
    "\<not> startswith l ''!help''" "\<not> startswith l ''!gid''" "\<not> startswith l ''!uid''"
    "\<not> startswith l ''!additem''" "\<not> startswith l ''!status''" "\<not> startswith l ''!return''"
  by (rule not_startswith [OF p], simp)+

lemma return_only:
  assumes p: "startswith l ''!return''"
  shows "\<not> startswith l ''!yesno''" "\<not> startswith l ''!trun''" "\<not> startswith l ''!pick''"
    "\<not> startswith l ''!help''" "\<not> startswith l ''!gid''" "\<not> startswith l ''!uid''"
    "\<not> startswith l ''!additem''" "\<not> startswith l ''!status''" "\<not> startswith l ''!borrow''"
  by (rule not_startswith [OF p], simp)+

lemma mine_only:
  assumes p: "startswith l ''!mine''"
  shows "\<not> startswith l ''!yesno''" "\<not> startswith l ''!trun''" "\<not> startswith l ''!pick''"
    "\<not> startswith l ''!help''" "\<not> startswith l ''!gid''" "\<not> startswith l ''!uid''"
    "\<not> startswith l ''!additem''" "\<not> startswith l ''!status''" "\<not> startswith l ''!borrow''"
    "\<not> startswith l ''!return''"
  by (rule not_startswith [OF p], simp)+

lemma dispatch_additem:
  assumes "\<not> group_refused e (src_group_id ev)" "startswith (lower (text_of ev)) ''!additem''"
  shows "handle_text e ev st = handle_additem e (text_of ev) st"
  using assms additem_only [OF assms(2)] by (simp add: handle_text_def Let_def)

lemma dispatch_borrow:
  assumes "\<not> group_refused e (src_group_id ev)" "startswith (lower (text_of ev)) ''!borrow''"
  shows "handle_text e ev st = handle_borrow_return e ev (lower (text_of ev)) (text_of ev) st"
  using assms borrow_only [OF assms(2)] by (simp add: handle_text_def Let_def)

lemma dispatch_return:
  assumes "\<not> group_refused e (src_group_id ev)" "startswith (lower (text_of ev)) ''!return''"
  shows "handle_text e ev st = handle_borrow_return e ev (lower (text_of ev)) (text_of ev) st"
  using assms return_only [OF assms(2)] by (simp add: handle_text_def Let_def)

lemma dispatch_mine:
  assumes "\<not> group_refused e (src_group_id ev)" "startswith (lower (text_of ev)) ''!mine''"
  shows "handle_text e ev st = handle_mine ev st"
  using assms mine_only [OF assms(2)] by (simp add: handle_text_def Let_def)

section \<open>Appending a transaction\<close>

lemma sum_borrowed_append:
  "tx \<noteq> [] \<Longrightarrow> sum_borrowed (tx @ [r]) item =
     sum_borrowed tx item + (if on_item item r then delta_or_zero r else 0)"
  by (cases tx) (simp_all add: sum_borrowed_def sum_borrowed_loop_acc)

lemma user_borrowed_append:
  "tx \<noteq> [] \<Longrightarrow> user_borrowed (tx @ [r]) u item =
     user_borrowed tx u item + (if by_user u r \<and> on_item item r then delta_or_zero r else 0)"
  by (cases tx) (simp_all add: user_borrowed_def user_borrowed_loop_acc)

lemma user_borrowed_empty: "user_borrowed [] u item = 0"
  by (simp add: user_borrowed_def)

lemma user_borrowed_None: "user_borrowed tx None item = 0"
proof -
  have "user_borrowed_loop None item s rows = s" for s rows
    by (induction rows arbitrary: s) simp_all
  then show ?thesis by (simp add: user_borrowed_def)
qed

lemma tx_row_facts:
  "on_item item [ts, g, uid, name, item, str_int d, note]"
  "by_user (Some uid) [ts, g, uid, name, item, str_int d, note]"
  "delta_or_zero [ts, g, uid, name, item, str_int d, note] = d"
  by (simp_all add: on_item_def by_user_def delta_or_zero_def py_int_str_int)

section \<open>Returning\<close>

lemma handle_return_ok:
  assumes "\<not> startswith lowered ''!borrow''"
    and "shlex_split e text = Some tokens" "\<not> malformed tokens"
    and "py_int (tokens ! 2) = Some qty" "0 < qty"
    and "get_item (py_float e) (ws_items st) (tokens ! 1) = Inr (Some r)"
    and "user_borrowed (ws_tx st) (uid_of ev) (tokens ! 1) = held" "0 < held"
  shows "handle_borrow_return e ev lowered text st =
      (Reply (ReturnOk (tokens ! 1) (min qty held) (opt_str (name_of e ev))
                (if min qty held < qty then Some held else None)),
       st\<lparr>ws_tx := ws_tx st @
             [[now_ts e, opt_cell (src_group_id ev), opt_cell (uid_of ev),
               opt_cell (name_of e ev), tokens ! 1, str_int (- min qty held), note_of tokens]]\<rparr>)"
  using assms by (simp add: handle_borrow_return_def Let_def add_tx_def append_row_def min_def)

text \<open>
  Claim C1. A \<^verbatim>\<open>!return\<close> command of an actor who holds \<open>held > 0\<close> units of an item of
  the registry, with a quantity \<open>qty > 0\<close>: one row is appended to the ledger, its delta
  is \<open>- min qty held\<close>, the actor's balance drops by that much, and the reply carries
  the remark on the adjustment exactly when \<open>min qty held < qty\<close>. So \<open>held\<close> units
  are returned when \<open>qty > held\<close>, and \<open>qty\<close> units otherwise.
\<close>

theorem return_clamps_to_holding:
  assumes grp: "\<not> group_refused e (src_group_id ev)"
    and cmd: "startswith (lower (text_of ev)) ''!return''"
    and toks: "shlex_split e (text_of ev) = Some tokens" "\<not> malformed tokens"
    and qty: "py_int (tokens ! 2) = Some qty" "0 < qty"
    and item: "get_item (py_float e) (ws_items st) (tokens ! 1) = Inr (Some r)"
    and held: "user_borrowed (ws_tx st) (uid_of ev) (tokens ! 1) = held" "0 < held"
  shows "handle_text e ev st =
      (Reply (ReturnOk (tokens ! 1) (min qty held) (opt_str (name_of e ev))
                (if min qty held < qty then Some held else None)),
       st\<lparr>ws_tx := ws_tx st @
             [[now_ts e, opt_cell (src_group_id ev), opt_cell (uid_of ev),
               opt_cell (name_of e ev), tokens ! 1, str_int (- min qty held), note_of tokens]]\<rparr>)
    \<and> py_int (str_int (- min qty held)) = Some (- min qty held)
    \<and> user_borrowed (ws_tx (snd (handle_text e ev st))) (uid_of ev) (tokens ! 1)
        = held - min qty held
    \<and> min qty held = (if held < qty then held else qty)"
proof -
  have nb: "\<not> startswith (lower (text_of ev)) ''!borrow''"
    using return_only [OF cmd] by simp
  have run: "handle_text e ev st =
      (Reply (ReturnOk (tokens ! 1) (min qty held) (opt_str (name_of e ev))
                (if min qty held < qty then Some held else None)),
       st\<lparr>ws_tx := ws_tx st @
             [[now_ts e, opt_cell (src_group_id ev), opt_cell (uid_of ev),
               opt_cell (name_of e ev), tokens ! 1, str_int (- min qty held), note_of tokens]]\<rparr>)"
    using dispatch_return [OF grp cmd] handle_return_ok [OF nb toks qty item held] by simp
  have ne: "ws_tx st \<noteq> []"
    using held user_borrowed_empty by fastforce
  obtain u where u: "uid_of ev = Some u"
    using held user_borrowed_None by (cases "uid_of ev") fastforce+
  have after: "user_borrowed (ws_tx (snd (handle_text e ev st))) (uid_of ev) (tokens ! 1)
        = held - min qty held"
    using held(1)
    by (simp add: run user_borrowed_append [OF ne] u opt_cell_def tx_row_facts)
  show ?thesis
    using run after by (simp add: py_int_str_int min_def)
qed

theorem return_clamps_to_holding_witness:
  "handle_text env0 (user_event ''U1'' ''!return cam 5 thanks'') store1 =
     (Reply (ReturnOk ''cam'' 2 ''Ann'' (Some 2)),
      \<lparr>ws_items = [items_header, [''cam'', ''3'', []]],
       ws_tx = [tx_header, [''t1'', [], ''U1'', ''Ann'', ''cam'', ''2'', []],
                [''2024-05-01T09:00:00+08:00'', [], ''U1'', ''Ann'', ''cam'', ''-2'', ''thanks'']]\<rparr>)
   \<and> user_borrowed (ws_tx (snd (handle_text env0 (user_event ''U1'' ''!return cam 5 thanks'') store1)))
         (Some ''U1'') ''cam'' = 0"
proof -
  let ?ev = "user_event ''U1'' ''!return cam 5 thanks''"
  let ?tokens = "[''!return'', ''cam'', ''5'', ''thanks'']"
  have grp: "\<not> group_refused env0 (src_group_id ?ev)" by code_simp
  have cmd: "startswith (lower (text_of ?ev)) ''!return''" by code_simp
  have toks: "shlex_split env0 (text_of ?ev) = Some ?tokens" "\<not> malformed ?tokens"
    by code_simp+
  have qty: "py_int (?tokens ! 2) = Some 5" "(0::int) < 5" by code_simp+
  have item: "get_item (py_float env0) (ws_items store1) (?tokens ! 1)
      = Inr (Some \<lparr>item_name = ''cam'', item_total = 3, item_note = Some (PyStr [])\<rparr>)"
    by code_simp
  have held: "user_borrowed (ws_tx store1) (uid_of ?ev) (?tokens ! 1) = 2" "(0::int) < 2"
    by code_simp+
  have nm: "name_of env0 ?ev = Some ''Ann''" "uid_of ?ev = Some ''U1''"
    "note_of ?tokens = ''thanks''"
    "now_ts env0 = ''2024-05-01T09:00:00+08:00''" "src_group_id ?ev = None"
    "str_int (- 2) = ''-2''"
    by code_simp+
  note t = return_clamps_to_holding [OF grp cmd toks qty item held]
  from t [THEN conjunct1] have run: "handle_text env0 ?ev store1 =
     (Reply (ReturnOk ''cam'' 2 ''Ann'' (Some 2)),
      \<lparr>ws_items = [items_header, [''cam'', ''3'', []]],
       ws_tx = [tx_header, [''t1'', [], ''U1'', ''Ann'', ''cam'', ''2'', []],
                [''2024-05-01T09:00:00+08:00'', [], ''U1'', ''Ann'', ''cam'', ''-2'', ''thanks'']]\<rparr>)"
    by (simp add: nm store1_def opt_cell_def opt_str_def)
  from t [THEN conjunct2, THEN conjunct2, THEN conjunct1]
  have "user_borrowed (ws_tx (snd (handle_text env0 ?ev store1))) (Some ''U1'') ''cam'' = 0"
    by (simp add: nm)
  with run show ?thesis by simp
qed

section \<open>Borrowing\<close>




text \<open>
  Two borrowings at the edges of the data: an item whose name reads as a number is not
  found again, since the registry hands its name out as the number 7 and \<^verbatim>\<open>str\<close> of that
  is not the name; and for a source whose user id is \<^verbatim>\<open>None\<close> the row's user cells stay
  empty and the reply shows the text "None".
\<close>

lemma borrow_numeral_name_example:
  "fst (handle_text env0 (user_event ''U1'' ''!borrow 007 1'')
         (snd (handle_text env0 (user_event ''U1'' ''!additem 007 5'') store0)))
     = Reply (ItemNotFound ''007'')"
  by code_simp

lemma borrow_without_user_id_example:
  "handle_text env0 \<lparr>message_text = Some ''!borrow cam 1'', src_group_id = Some ''G1'',
                      src_user_id = None\<rparr> store1
     = (Reply (BorrowOk ''cam'' 1 ''None''),
        \<lparr>ws_items = [items_header, [''cam'', ''3'', []]],
         ws_tx = [tx_header, [''t1'', [], ''U1'', ''Ann'', ''cam'', ''2'', []],
                  [''2024-05-01T09:00:00+08:00'', ''G1'', [], [], ''cam'', ''1'', []]]\<rparr>)"
  by code_simp

section \<open>Rejections\<close>

lemma additem_rejection:
  "handle_additem e text st = (Reply r, st') \<Longrightarrow> is_rejection r \<Longrightarrow> st' = st"
  by (auto simp: handle_additem_def Let_def split: option.splits if_splits)

lemma status_keeps_store: "snd (handle_status e text st) = st"
  by (simp add: handle_status_def Let_def split: option.splits sum.splits)

lemma borrow_return_rejection:
  "handle_borrow_return e ev lowered text st = (Reply r, st') \<Longrightarrow> is_rejection r \<Longrightarrow> st' = st"
  by (auto simp: handle_borrow_return_def Let_def split: option.splits sum.splits if_splits)

lemma handle_text_cases:
  "handle_text e ev st = handle_additem e (text_of ev) st
   \<or> handle_text e ev st = handle_status e (text_of ev) st
   \<or> handle_text e ev st = handle_borrow_return e ev (lower (text_of ev)) (text_of ev) st
   \<or> snd (handle_text e ev st) = st"
  by (simp add: handle_text_def Let_def handle_mine_def split: option.splits)

text \<open>
  Claim C3. A command that is answered with one of the rejections (invalid quantity,
  insufficient stock, item not found, nothing to return, or a usage text for malformed
  arguments) leaves both worksheets as they were.
\<close>

theorem rejection_leaves_no_trace:
  assumes "handle_text e ev st = (Reply r, st')" and "is_rejection r"
  shows "st' = st"
proof -
  consider
      (additem) "handle_text e ev st = handle_additem e (text_of ev) st"
    | (status) "handle_text e ev st = handle_status e (text_of ev) st"
    | (borrow_return)
      "handle_text e ev st = handle_borrow_return e ev (lower (text_of ev)) (text_of ev) st"
    | (other) "snd (handle_text e ev st) = st"
    using handle_text_cases [of e ev st] by blast
  then show ?thesis
  proof cases
    case additem
    with assms show ?thesis using additem_rejection by simp
  next
    case status
    with assms have "snd (handle_status e (text_of ev) st) = st'" by simp
    then show ?thesis by (simp add: status_keeps_store)
  next
    case borrow_return
    with assms show ?thesis using borrow_return_rejection by simp
  next
    case other
    with assms show ?thesis by simp
  qed
qed

theorem rejection_leaves_no_trace_witness:
  "handle_text env0 (user_event ''U2'' ''!borrow cam 2'') store1
     = (Reply (InsufficientStock ''cam'' 1 2), store1)
   \<and> is_rejection (InsufficientStock ''cam'' 1 2)
   \<and> handle_text env0 (user_event ''U2'' ''!return cam 1'') store1
     = (Reply (NothingToReturn ''cam''), store1)
   \<and> handle_text env0 (user_event ''U2'' ''!additem cam'') store1 = (Reply UsageAdditem, store1)"
proof -
  have 1: "fst (handle_text env0 (user_event ''U2'' ''!borrow cam 2'') store1)
      = Reply (InsufficientStock ''cam'' 1 2)" by code_simp
  have 2: "fst (handle_text env0 (user_event ''U2'' ''!return cam 1'') store1)
      = Reply (NothingToReturn ''cam'')" by code_simp
  have 3: "fst (handle_text env0 (user_event ''U2'' ''!additem cam'') store1)
      = Reply UsageAdditem" by code_simp
  have e1: "handle_text env0 (user_event ''U2'' ''!borrow cam 2'') store1
      = (Reply (InsufficientStock ''cam'' 1 2),
         snd (handle_text env0 (user_event ''U2'' ''!borrow cam 2'') store1))"
    using 1 by (simp add: prod_eq_iff)
  have e2: "handle_text env0 (user_event ''U2'' ''!return cam 1'') store1
      = (Reply (NothingToReturn ''cam''),
         snd (handle_text env0 (user_event ''U2'' ''!return cam 1'') store1))"
    using 2 by (simp add: prod_eq_iff)
  have e3: "handle_text env0 (user_event ''U2'' ''!additem cam'') store1
      = (Reply UsageAdditem, snd (handle_text env0 (user_event ''U2'' ''!additem cam'') store1))"
    using 3 by (simp add: prod_eq_iff)
  have "snd (handle_text env0 (user_event ''U2'' ''!borrow cam 2'') store1) = store1"
    using rejection_leaves_no_trace [OF e1] by simp
  moreover have "snd (handle_text env0 (user_event ''U2'' ''!return cam 1'') store1) = store1"
    using rejection_leaves_no_trace [OF e2] by simp
  moreover have "snd (handle_text env0 (user_event ''U2'' ''!additem cam'') store1) = store1"
    using rejection_leaves_no_trace [OF e3] by simp
  ultimately show ?thesis using 1 2 3 by (simp add: prod_eq_iff)
qed

section \<open>Texts that are no command\<close>

text \<open>
  Claim C4, as stated, fails: the handler knows more prefixes than the six of the
  claim. The text \<^verbatim>\<open>!uid\<close>, whose first token starts with none of \<^verbatim>\<open>!additem\<close>,
  \<^verbatim>\<open>!borrow\<close>, \<^verbatim>\<open>!return\<close>, \<^verbatim>\<open>!status\<close>, \<^verbatim>\<open>!mine\<close>, \<^verbatim>\<open>!help\<close>, is answered.
\<close>

theorem silence_counterexample:
  "split_blanks (text_of (user_event ''U1'' ''!uid'')) = Some [''!uid'']
   \<and> \<not> startswith (lower ''!uid'') ''!additem''
   \<and> \<not> startswith (lower ''!uid'') ''!borrow''
   \<and> \<not> startswith (lower ''!uid'') ''!return''
   \<and> \<not> startswith (lower ''!uid'') ''!status''
   \<and> \<not> startswith (lower ''!uid'') ''!mine''
   \<and> \<not> startswith (lower ''!uid'') ''!help''
   \<and> handle_text env0 (user_event ''U1'' ''!uid'') store0 = (Reply (UserId ''U1''), store0)"
  by code_simp

text \<open>
  Claim C4, amended. A text whose stripped, lower-cased form starts with none of the
  eleven prefixes the handler tests (\<^verbatim>\<open>!yesno\<close>, \<^verbatim>\<open>!trun\<close>, \<^verbatim>\<open>!pick\<close>, \<^verbatim>\<open>!help\<close>, \<^verbatim>\<open>!gid\<close>,
  \<^verbatim>\<open>!uid\<close>, \<^verbatim>\<open>!additem\<close>, \<^verbatim>\<open>!status\<close>, \<^verbatim>\<open>!borrow\<close>, \<^verbatim>\<open>!return\<close>, \<^verbatim>\<open>!mine\<close>) gets no reply
  at all, and the store is left as it was.
\<close>

theorem unrecognized_is_silent:
  assumes "list_all (\<lambda>p. \<not> startswith (lower (text_of ev)) p) handler_prefixes"
  shows "handle_text e ev st = (Silent, st)"
  using assms by (simp add: handle_text_def handler_prefixes_def Let_def)

theorem unrecognized_is_silent_witness:
  "list_all (\<lambda>p. \<not> startswith (lower (text_of (user_event ''U1'' ''Borrow the cam?''))) p)
     handler_prefixes
   \<and> handle_text env0 (user_event ''U1'' ''Borrow the cam?'') store1 = (Silent, store1)"
proof -
  have h: "list_all (\<lambda>p. \<not> startswith (lower (text_of (user_event ''U1'' ''Borrow the cam?''))) p)
     handler_prefixes"
    by code_simp
  from h unrecognized_is_silent [OF h, of env0 store1] show ?thesis by simp
qed

section \<open>Quantity tokens\<close>

lemma last_dropWhile: "dropWhile P xs \<noteq> [] \<Longrightarrow> last (dropWhile P xs) = last xs"
  by (induction xs) (auto split: if_splits)

lemma lstrip_minus_digits:
  assumes "isdecimal ds"
  shows "lstrip_minus ds = ds" "lstrip_minus (CHR ''-'' # ds) = ds"
proof -
  from assms obtain c r where ds: "ds = c # r" and "is_digit c"
    by (cases ds) (auto simp: isdecimal_def)
  then have "c \<noteq> CHR ''-''" using is_digit_cases by blast
  with ds show "lstrip_minus ds = ds" "lstrip_minus (CHR ''-'' # ds) = ds"
    by (simp_all add: lstrip_minus_def)
qed

lemma accepted_total_sign:
  assumes ok: "isdigit (lstrip_minus tok)" and val: "py_int tok = Some tot"
  shows "(0 \<le> tot) = (hd tok \<noteq> CHR ''-'' \<or> tot = 0)"
proof -
  from ok have ne: "tok \<noteq> []" by (auto simp: isdigit_def lstrip_minus_def)
  from ok have "dropWhile (\<lambda>c. c = CHR ''-'') tok \<noteq> []"
    by (simp add: isdigit_def lstrip_minus_def)
  then have "last (lstrip_minus tok) = last tok"
    unfolding lstrip_minus_def by (rule last_dropWhile)
  with ok have "is_digit_char (last tok)" using isdigit_ends by fastforce
  then have rear: "\<not> is_space (last tok)" using is_digit_char_cases by blast
  show ?thesis
  proof (cases "hd tok = CHR ''-''")
    case False
    with ne have "lstrip_minus tok = tok" by (cases tok) (simp_all add: lstrip_minus_def)
    with ok have "is_digit_char (hd tok)" using isdigit_ends by fastforce
    then have front: "\<not> is_space (hd tok)" "hd tok \<noteq> CHR ''+''"
      using is_digit_char_cases by blast+
    from front(1) rear have "strip tok = tok" using ne by (simp add: strip_id)
    moreover obtain c r where "tok = c # r" using ne by (cases tok) auto
    ultimately have "0 \<le> tot" using val False front(2) by (auto simp: py_int_def)
    with False show ?thesis by simp
  next
    case True
    with ne obtain rest where tok: "tok = CHR ''-'' # rest" by (cases tok) auto
    have "\<not> is_space (hd tok)" using True by (simp add: is_space_def)
    with rear have "strip tok = tok" using ne by (simp add: strip_id)
    with val tok have "tot \<le> 0" by (auto simp: py_int_def)
    with True show ?thesis by auto
  qed
qed

lemma handle_additem_accepted:
  assumes "shlex_split e text = Some tokens" "\<not> malformed tokens"
  shows "handle_additem e text st =
     (case py_int (tokens ! 2) of
        None \<Rightarrow> (Logged ValueError, st)
      | Some tot \<Rightarrow>
          (Reply (ItemSet (tokens ! 1) tot),
           st\<lparr>ws_items := upsert_item (tokens ! 1) tot (note_of tokens) (ws_items st)\<rparr>))"
  using assms by (simp add: handle_additem_def Let_def split: option.splits)

text \<open>
  Claim C6, as stated, fails: \<^verbatim>\<open>!additem cam -5\<close> is accepted and the total \<open>-5\<close> is
  written to the registry and read back by \<^verbatim>\<open>get_item\<close>.
\<close>

theorem additem_negative_total_counterexample:
  "handle_text env0 (user_event ''U1'' ''!additem cam -5'') store0 =
     (Reply (ItemSet ''cam'' (- 5)),
      \<lparr>ws_items = [items_header, [''cam'', ''-5'', []]], ws_tx = [tx_header]\<rparr>)
   \<and> get_item (py_float env0) [items_header, [''cam'', ''-5'', []]] ''cam''
       = Inr (Some \<lparr>item_name = ''cam'', item_total = - 5, item_note = Some (PyStr [])\<rparr>)
   \<and> \<not> (0 \<le> item_total \<lparr>item_name = ''cam'', item_total = - 5, item_note = Some (PyStr [])\<rparr>)"
  by code_simp

text \<open>
  Claim C6, amended. For every token sequence the \<^verbatim>\<open>!additem\<close> branch accepts (it does
  not answer with the usage text), the total handed to \<^verbatim>\<open>upsert_item\<close> is the integer
  the quantity token denotes, whatever its sign: it is \<open>\<ge> 0\<close> exactly when the token does
  not start with \<^verbatim>\<open>-\<close> or denotes 0. (A token that \<^verbatim>\<open>int\<close> refuses, such as \<^verbatim>\<open>--5\<close>,
  ends in a logged exception and no write.)
\<close>

theorem additem_stores_token_value:
  assumes grp: "\<not> group_refused e (src_group_id ev)"
    and cmd: "startswith (lower (text_of ev)) ''!additem''"
    and toks: "shlex_split e (text_of ev) = Some tokens" "\<not> malformed tokens"
  shows "(case py_int (tokens ! 2) of
            None \<Rightarrow> handle_text e ev st = (Logged ValueError, st)
          | Some tot \<Rightarrow>
              handle_text e ev st =
                (Reply (ItemSet (tokens ! 1) tot),
                 st\<lparr>ws_items := upsert_item (tokens ! 1) tot (note_of tokens) (ws_items st)\<rparr>)
              \<and> (0 \<le> tot) = (hd (tokens ! 2) \<noteq> CHR ''-'' \<or> tot = 0))"
proof (cases "py_int (tokens ! 2)")
  case None
  then show ?thesis
    using dispatch_additem [OF grp cmd, of st] handle_additem_accepted [OF toks, of st] by simp
next
  case (Some tot)
  from toks(2) have "isdigit (lstrip_minus (tokens ! 2))" by (simp add: malformed_def)
  then have "(0 \<le> tot) = (hd (tokens ! 2) \<noteq> CHR ''-'' \<or> tot = 0)"
    using Some by (rule accepted_total_sign)
  then show ?thesis
    using Some dispatch_additem [OF grp cmd, of st] handle_additem_accepted [OF toks, of st]
    by simp
qed

theorem additem_stores_token_value_witness:
  "handle_text env0 (user_event ''U1'' ''!additem tripod -2 lent out'') store1 =
     (Reply (ItemSet ''tripod'' (- 2)),
      store1\<lparr>ws_items := upsert_item ''tripod'' (- 2) ''lent out'' (ws_items store1)\<rparr>)
   \<and> upsert_item ''tripod'' (- 2) ''lent out'' (ws_items store1)
       = [items_header, [''cam'', ''3'', []], [''tripod'', ''-2'', ''lent out'']]
   \<and> hd ''-2'' = CHR ''-''"
proof -
  let ?ev = "user_event ''U1'' ''!additem tripod -2 lent out''"
  let ?tokens = "[''!additem'', ''tripod'', ''-2'', ''lent'', ''out'']"
  have grp: "\<not> group_refused env0 (src_group_id ?ev)" by code_simp
  have cmd: "startswith (lower (text_of ?ev)) ''!additem''" by code_simp
  have toks: "shlex_split env0 (text_of ?ev) = Some ?tokens" "\<not> malformed ?tokens"
    by code_simp+
  have v: "py_int ''-2'' = Some (- 2)" "note_of ?tokens = ''lent out''"
    by code_simp+
  have w: "upsert_item ''tripod'' (- 2) ''lent out'' (ws_items store1)
       = [items_header, [''cam'', ''3'', []], [''tripod'', ''-2'', ''lent out'']]"
    by code_simp
  from additem_stores_token_value [OF grp cmd toks, of store1]
  have "handle_text env0 ?ev store1 =
     (Reply (ItemSet ''tripod'' (- 2)),
      store1\<lparr>ws_items := upsert_item ''tripod'' (- 2) ''lent out'' (ws_items store1)\<rparr>)"
    by (simp add: v)
  with w show ?thesis by simp
qed

lemma borrow_return_not_usage:
  assumes "shlex_split e text = Some tokens" "\<not> malformed tokens"
  shows "fst (handle_borrow_return e ev lowered text st) \<noteq> Reply UsageBorrowReturn
       \<and> fst (handle_borrow_return e ev lowered text st) \<noteq> Reply UsageAdditem"
  using assms
  by (simp add: handle_borrow_return_def Let_def split: option.splits sum.splits)

lemma additem_not_usage:
  assumes "shlex_split e text = Some tokens" "\<not> malformed tokens"
  shows "fst (handle_additem e text st) \<noteq> Reply UsageBorrowReturn
       \<and> fst (handle_additem e text st) \<noteq> Reply UsageAdditem"
  using assms
  by (simp add: handle_additem_def Let_def split: option.splits)

text \<open>
  Claim C7, as stated, fails for the sign \<^verbatim>\<open>+\<close>: the test strips only \<^verbatim>\<open>-\<close> from the
  token, so \<^verbatim>\<open>+1\<close> is answered with the usage text, by \<^verbatim>\<open>!borrow\<close> and \<^verbatim>\<open>!return\<close> as
  by \<^verbatim>\<open>!additem\<close>.
\<close>

theorem plus_sign_counterexample:
  "split_blanks (text_of (user_event ''U1'' ''!borrow cam +1'')) = Some [''!borrow'', ''cam'', ''+1'']
   \<and> py_int ''+1'' = Some 1
   \<and> handle_text env0 (user_event ''U1'' ''!borrow cam +1'') store1 = (Reply UsageBorrowReturn, store1)
   \<and> handle_text env0 (user_event ''U1'' ''!return cam +1'') store1 = (Reply UsageBorrowReturn, store1)
   \<and> handle_text env0 (user_event ''U1'' ''!additem cam +1'') store1 = (Reply UsageAdditem, store1)"
  by code_simp

text \<open>
  Claim C7, amended. For every \<^verbatim>\<open>!additem\<close>, \<^verbatim>\<open>!borrow\<close> or \<^verbatim>\<open>!return\<close> command with at
  least three tokens whose quantity token is a decimal numeral (digits \<^verbatim>\<open>0\<close>..\<^verbatim>\<open>9\<close>) with an
  optional leading \<^verbatim>\<open>-\<close>, the token passes the test, \<^verbatim>\<open>int\<close> reads it as the numeral's value with that
  sign, and the handler does not answer with a usage text.
\<close>

theorem minus_signed_quantity_accepted:
  assumes grp: "\<not> group_refused e (src_group_id ev)"
    and cmd: "startswith (lower (text_of ev)) ''!additem''
              \<or> startswith (lower (text_of ev)) ''!borrow''
              \<or> startswith (lower (text_of ev)) ''!return''"
    and toks: "shlex_split e (text_of ev) = Some tokens" "3 \<le> length tokens"
    and tok: "tokens ! 2 = ds \<or> tokens ! 2 = CHR ''-'' # ds" "isdecimal ds"
  shows "\<not> malformed tokens
    \<and> py_int (tokens ! 2) =
        Some (if tokens ! 2 = ds then int (digits_value ds) else - int (digits_value ds))
    \<and> fst (handle_text e ev st) \<noteq> Reply UsageAdditem
    \<and> fst (handle_text e ev st) \<noteq> Reply UsageBorrowReturn"
proof -
  from tok have ok: "\<not> malformed tokens"
    using toks(2) lstrip_minus_digits [OF tok(2)] isdecimal_isdigit [OF tok(2)]
    by (auto simp: malformed_def)
  from tok have val: "py_int (tokens ! 2) =
        Some (if tokens ! 2 = ds then int (digits_value ds) else - int (digits_value ds))"
    using py_int_digits [OF tok(2)] py_int_minus_digits [OF tok(2)] by auto
  from cmd have "fst (handle_text e ev st) \<noteq> Reply UsageAdditem
    \<and> fst (handle_text e ev st) \<noteq> Reply UsageBorrowReturn"
  proof (elim disjE)
    assume "startswith (lower (text_of ev)) ''!additem''"
    then show ?thesis
      using dispatch_additem [OF grp, of st] additem_not_usage [OF toks(1) ok, of st] by simp
  next
    assume "startswith (lower (text_of ev)) ''!borrow''"
    then show ?thesis
      using dispatch_borrow [OF grp, of st]
        borrow_return_not_usage [OF toks(1) ok, of ev "lower (text_of ev)" st] by simp
  next
    assume "startswith (lower (text_of ev)) ''!return''"
    then show ?thesis
      using dispatch_return [OF grp, of st]
        borrow_return_not_usage [OF toks(1) ok, of ev "lower (text_of ev)" st] by simp
  qed
  with ok val show ?thesis by simp
qed

theorem minus_signed_quantity_accepted_witness:
  "\<not> malformed [''!borrow'', ''cam'', ''-1'']
   \<and> py_int ''-1'' = Some (- 1)
   \<and> fst (handle_text env0 (user_event ''U1'' ''!borrow cam -1'') store1) \<noteq> Reply UsageBorrowReturn
   \<and> handle_text env0 (user_event ''U1'' ''!borrow cam -1'') store1 = (Reply InvalidQuantity, store1)"
proof -
  let ?ev = "user_event ''U1'' ''!borrow cam -1''"
  let ?tokens = "[''!borrow'', ''cam'', ''-1'']"
  have grp: "\<not> group_refused env0 (src_group_id ?ev)" by code_simp
  have cmd: "startswith (lower (text_of ?ev)) ''!additem''
              \<or> startswith (lower (text_of ?ev)) ''!borrow''
              \<or> startswith (lower (text_of ?ev)) ''!return''" by code_simp
  have toks: "shlex_split env0 (text_of ?ev) = Some ?tokens" "3 \<le> length ?tokens"
    by code_simp+
  have tok: "?tokens ! 2 = ''1'' \<or> ?tokens ! 2 = CHR ''-'' # ''1''" "isdecimal ''1''"
    by code_simp+
  have v: "digits_value ''1'' = 1" by code_simp
  have run: "handle_text env0 ?ev store1 = (Reply InvalidQuantity, store1)" by code_simp
  from minus_signed_quantity_accepted [OF grp cmd toks tok, of store1] run
  show ?thesis by (simp add: v)
qed

section \<open>Defining an item named like the header\<close>

text \<open>
  Claim C8 does not hold of the code for the item name \<^verbatim>\<open>item\<close>, the text of the header
  cell A1: \<^verbatim>\<open>col_values(1)\<close> starts with the header cell, so \<^verbatim>\<open>items.index(item) + 1\<close> is
  row 1 and the update overwrites B1:C1 of the header. No row is created, \<^verbatim>\<open>get_item\<close>
  does not find the item, and with the header cell \<^verbatim>\<open>total\<close> gone every other item of the
  registry reads as total 0.
\<close>

theorem upsert_item_header_collision:
  "upsert_item ''item'' 5 ''x'' [items_header, [''cam'', ''3'', []]]
     = [[''item'', ''5'', ''x''], [''cam'', ''3'', []]]
   \<and> get_item (py_float env0) (upsert_item ''item'' 5 ''x'' [items_header, [''cam'', ''3'', []]])
         ''item'' = Inr None
   \<and> get_item (py_float env0) [items_header, [''cam'', ''3'', []]] ''cam''
       = Inr (Some \<lparr>item_name = ''cam'', item_total = 3, item_note = Some (PyStr [])\<rparr>)
   \<and> get_item (py_float env0) (upsert_item ''item'' 5 ''x'' [items_header, [''cam'', ''3'', []]])
         ''cam''
       = Inr (Some \<lparr>item_name = ''cam'', item_total = 0, item_note = None\<rparr>)
   \<and> handle_text env0 (user_event ''U1'' ''!additem item 5 x'') store1
       = (Reply (ItemSet ''item'' 5),
          \<lparr>ws_items = [[''item'', ''5'', ''x''], [''cam'', ''3'', []]], ws_tx = ws_tx store1\<rparr>)"
  by code_simp

section \<open>The report of an actor's holdings\<close>

lemma tally_get_update:
  "tally_get (AList.update k v t) k' = (if k' = k then v else tally_get t k')"
  by (simp add: tally_get_def update_conv')

lemma tally_loop_distinct:
  "distinct (map fst t) \<Longrightarrow> distinct (map fst (tally_loop uid t rows))"
  by (induction rows arbitrary: t) (simp_all add: Let_def distinct_update)

lemma tally_loop_get:
  "tally_get (tally_loop uid t rows) k =
     tally_get t k
     + sum_list (map delta_or_zero (filter (\<lambda>r. by_user uid r \<and> on_item k r) rows))"
  by (induction rows arbitrary: t)
     (auto simp: Let_def tally_get_update by_user_def on_item_def delta_or_zero_def)

lemma tally_get_total: "tally_get (tally_loop uid [] (drop 1 tx)) k = user_borrowed tx uid k"
proof -
  have "tally_get [] k = 0" by (simp add: tally_get_def)
  then show ?thesis
    unfolding user_borrowed_def user_borrowed_loop_acc tally_loop_get by simp
qed

lemma mine_lines_iff:
  "((k, v) \<in> set (mine_lines tx uid)) = (v = user_borrowed tx uid k \<and> 0 < v)"
proof -
  let ?T = "tally_loop uid [] (drop 1 tx)"
  have d: "distinct (map fst ?T)" by (rule tally_loop_distinct) simp
  show ?thesis
  proof
    assume "(k, v) \<in> set (mine_lines tx uid)"
    then have m: "(k, v) \<in> set ?T" and pos: "0 < v" by (auto simp: mine_lines_def)
    from d m have "map_of ?T k = Some v" by simp
    then have "tally_get ?T k = v" by (simp add: tally_get_def)
    with pos show "v = user_borrowed tx uid k \<and> 0 < v"
      using tally_get_total [of uid tx k] by simp
  next
    assume a: "v = user_borrowed tx uid k \<and> 0 < v"
    then have g: "tally_get ?T k = v" using tally_get_total [of uid tx k] by simp
    with a have "map_of ?T k = Some v" by (auto simp: tally_get_def split: option.splits)
    then have "(k, v) \<in> set ?T" by (rule map_of_SomeD)
    with a show "(k, v) \<in> set (mine_lines tx uid)" by (simp add: mine_lines_def)
  qed
qed

lemma mine_lines_distinct: "distinct (map fst (mine_lines tx uid))"
  unfolding mine_lines_def
  by (rule distinct_map_filter) (rule tally_loop_distinct, simp)

text \<open>
  Claim C9. The report of \<^verbatim>\<open>!mine\<close> lists exactly the items whose summed delta over the
  actor's rows is strictly positive, each once and with that sum; an item whose sum is
  zero or negative is left out.
\<close>

theorem mine_reports_positive_balances:
  assumes grp: "\<not> group_refused e (src_group_id ev)"
    and cmd: "startswith (lower (text_of ev)) ''!mine''"
  shows "handle_text e ev st = (Reply (MineReport (mine_lines (ws_tx st) (uid_of ev))), st)
    \<and> (\<forall>k v. ((k, v) \<in> set (mine_lines (ws_tx st) (uid_of ev)))
              = (v = user_borrowed (ws_tx st) (uid_of ev) k \<and> 0 < v))
    \<and> distinct (map fst (mine_lines (ws_tx st) (uid_of ev)))"
  using dispatch_mine [OF grp cmd, of st]
  by (simp add: handle_mine_def mine_lines_iff mine_lines_distinct)

theorem mine_reports_positive_balances_witness:
  "handle_text env0 (user_event ''U1'' ''!mine'') \<lparr>ws_items = [items_header], ws_tx = tx2\<rparr>
     = (Reply (MineReport [(''cable'', 1)]), \<lparr>ws_items = [items_header], ws_tx = tx2\<rparr>)
   \<and> user_borrowed tx2 (Some ''U1'') ''tripod'' = 0
   \<and> user_borrowed tx2 (Some ''U1'') ''cable'' = 1"
proof -
  let ?ev = "user_event ''U1'' ''!mine''"
  let ?st = "\<lparr>ws_items = [items_header], ws_tx = tx2\<rparr>"
  have grp: "\<not> group_refused env0 (src_group_id ?ev)" by code_simp
  have cmd: "startswith (lower (text_of ?ev)) ''!mine''" by code_simp
  have v: "mine_lines tx2 (Some ''U1'') = [(''cable'', 1)]" "uid_of ?ev = Some ''U1''"
    "user_borrowed tx2 (Some ''U1'') ''tripod'' = 0" "user_borrowed tx2 (Some ''U1'') ''cable'' = 1"
    by code_simp+
  from mine_reports_positive_balances [OF grp cmd, of ?st, THEN conjunct1] v
  show ?thesis by simp
qed

section \<open>The group of a transaction is not read\<close>

lemma gid_variant_cells:
  assumes "gid_variant r r'"
  shows "length r' = length r" "r' ! 2 = r ! 2" "r' ! 4 = r ! 4" "r' ! 5 = r ! 5"
proof -
  from assms have eq: "r' = r[1 := r' ! 1]" by (simp add: gid_variant_def)
  show "length r' = length r" by (subst eq) simp
  show "r' ! 2 = r ! 2" by (subst eq) simp
  show "r' ! 4 = r ! 4" by (subst eq) simp
  show "r' ! 5 = r ! 5" by (subst eq) simp
qed

lemma sum_borrowed_loop_gid:
  "list_all2 gid_variant rows rows' \<Longrightarrow>
   sum_borrowed_loop item s rows' = sum_borrowed_loop item s rows"
proof (induction rows rows' arbitrary: s rule: list_all2_induct)
  case Nil
  show ?case by simp
next
  case (Cons r rows r' rows')
  then show ?case by (simp add: gid_variant_cells)
qed

lemma user_borrowed_loop_gid:
  "list_all2 gid_variant rows rows' \<Longrightarrow>
   user_borrowed_loop u item s rows' = user_borrowed_loop u item s rows"
proof (induction rows rows' arbitrary: s rule: list_all2_induct)
  case Nil
  show ?case by simp
next
  case (Cons r rows r' rows')
  then show ?case by (simp add: gid_variant_cells)
qed

lemma tally_loop_gid:
  "list_all2 gid_variant rows rows' \<Longrightarrow> tally_loop u t rows' = tally_loop u t rows"
proof (induction rows rows' arbitrary: t rule: list_all2_induct)
  case Nil
  show ?case by simp
next
  case (Cons r rows r' rows')
  then show ?case by (simp add: gid_variant_cells)
qed

lemma sum_borrowed_gid:
  "list_all2 gid_variant tx tx' \<Longrightarrow> sum_borrowed tx' item = sum_borrowed tx item"
  by (simp add: sum_borrowed_def sum_borrowed_loop_gid list_all2_dropI)

lemma status_all_loop_gid:
  assumes "list_all2 gid_variant tx tx'"
  shows "status_all_loop tx' rs = status_all_loop tx rs"
proof -
  have same: "sum_borrowed tx' item = sum_borrowed tx item" for item
    using assms by (rule sum_borrowed_gid)
  show ?thesis
    by (induction rs) (simp_all add: same Let_def split: sum.splits)
qed

lemma user_borrowed_gid:
  "list_all2 gid_variant tx tx' \<Longrightarrow> user_borrowed tx' u item = user_borrowed tx u item"
  by (simp add: user_borrowed_def user_borrowed_loop_gid list_all2_dropI)

lemma mine_lines_gid:
  assumes "list_all2 gid_variant tx tx'"
  shows "mine_lines tx' u = mine_lines tx u"
proof -
  from assms have "list_all2 gid_variant (drop 1 tx) (drop 1 tx')" by (rule list_all2_dropI)
  then have "tally_loop u [] (drop 1 tx') = tally_loop u [] (drop 1 tx)" by (rule tally_loop_gid)
  then show ?thesis unfolding mine_lines_def by (rule arg_cong)
qed

lemma handle_status_gid:
  assumes "list_all2 gid_variant tx tx'"
  shows "fst (handle_status e text \<lparr>ws_items = its, ws_tx = tx'\<rparr>)
       = fst (handle_status e text \<lparr>ws_items = its, ws_tx = tx\<rparr>)"
proof -
  have same: "sum_borrowed tx' item = sum_borrowed tx item" for item
    using assms by (rule sum_borrowed_gid)
  have all: "status_all fl \<lparr>ws_items = its, ws_tx = tx'\<rparr>
      = status_all fl \<lparr>ws_items = its, ws_tx = tx\<rparr>" for fl
    using assms by (simp add: status_all_def status_all_loop_gid)
  show ?thesis
    by (simp add: handle_status_def Let_def same all split: option.splits sum.splits)
qed

lemma handle_borrow_return_gid:
  assumes "list_all2 gid_variant tx tx'"
  shows "fst (handle_borrow_return e ev lowered text \<lparr>ws_items = its, ws_tx = tx'\<rparr>)
       = fst (handle_borrow_return e ev lowered text \<lparr>ws_items = its, ws_tx = tx\<rparr>)"
proof -
  have same: "sum_borrowed tx' item = sum_borrowed tx item" for item
    using assms by (rule sum_borrowed_gid)
  have same_u: "user_borrowed tx' u item = user_borrowed tx u item" for u item
    using assms by (rule user_borrowed_gid)
  show ?thesis
    by (simp add: handle_borrow_return_def Let_def same same_u split: option.splits sum.splits)
qed

lemma handle_text_gid:
  assumes "list_all2 gid_variant tx tx'"
  shows "fst (handle_text e ev \<lparr>ws_items = its, ws_tx = tx'\<rparr>)
       = fst (handle_text e ev \<lparr>ws_items = its, ws_tx = tx\<rparr>)"
  by (simp add: handle_text_def Let_def handle_status_gid [OF assms]
        handle_borrow_return_gid [OF assms] handle_mine_def mine_lines_gid [OF assms]
        handle_additem_def split: option.splits)

text \<open>
  Claim C10. No fold reads the cell \<^verbatim>\<open>group_id\<close>: when the group ids of any rows of the
  ledger are altered, \<^verbatim>\<open>sum_borrowed\<close>, \<^verbatim>\<open>user_borrowed\<close> and the report of \<^verbatim>\<open>!mine\<close> stay
  the same, and so do the listing of \<^verbatim>\<open>status_all\<close> and the outcome of every command;
  what is borrowed in one group counts against the availability seen from every group.
\<close>

theorem group_id_is_not_read:
  assumes "list_all2 gid_variant tx tx'"
  shows "sum_borrowed tx' item = sum_borrowed tx item
    \<and> user_borrowed tx' u item = user_borrowed tx u item
    \<and> mine_lines tx' u = mine_lines tx u
    \<and> status_all fl \<lparr>ws_items = its, ws_tx = tx'\<rparr> = status_all fl \<lparr>ws_items = its, ws_tx = tx\<rparr>
    \<and> fst (handle_text e ev \<lparr>ws_items = its, ws_tx = tx'\<rparr>)
        = fst (handle_text e ev \<lparr>ws_items = its, ws_tx = tx\<rparr>)"
  using assms
  by (simp add: sum_borrowed_gid user_borrowed_gid mine_lines_gid status_all_def
        status_all_loop_gid handle_text_gid)

theorem group_id_is_not_read_witness:
  "list_all2 gid_variant tx1 (map (\<lambda>r. r[1 := ''G9'']) tx1)
   \<and> sum_borrowed (map (\<lambda>r. r[1 := ''G9'']) tx1) ''cam'' = 3
   \<and> sum_borrowed tx1 ''cam'' = 3
   \<and> user_borrowed (map (\<lambda>r. r[1 := ''G9'']) tx1) (Some ''U1'') ''cam'' = user_borrowed tx1 (Some ''U1'') ''cam''
   \<and> mine_lines (map (\<lambda>r. r[1 := ''G9'']) tx1) (Some ''U1'') = [(''cam'', 2), (''cable'', 1)]"
proof -
  have h: "list_all2 gid_variant tx1 (map (\<lambda>r. r[1 := ''G9'']) tx1)" by code_simp
  have v: "sum_borrowed tx1 ''cam'' = 3" "mine_lines tx1 (Some ''U1'') = [(''cam'', 2), (''cable'', 1)]"
    by code_simp+
  from group_id_is_not_read [OF h, of "''cam''" "Some ''U1''"] h v
  show ?thesis by simp
qed

section \<open>What the folds compute\<close>

text \<open>
  Claim C5. For every ledger, also one with rows whose delta cell is no integer or is
  missing, \<^verbatim>\<open>sum_borrowed\<close> is the sum of the integer deltas of exactly the rows of the
  item, and \<^verbatim>\<open>user_borrowed\<close> the same sum over the rows that are also the user's; a
  row whose delta is missing or does not parse counts 0 (adding such a row changes
  neither sum), and the fold always returns.
\<close>

theorem folds_sum_parsable_deltas:
  "sum_borrowed tx item = sum_list (map delta_or_zero (filter (on_item item) (drop 1 tx)))
   \<and> user_borrowed tx u item =
       sum_list (map delta_or_zero (filter (\<lambda>r. by_user u r \<and> on_item item r) (drop 1 tx)))
   \<and> (\<forall>r. tx \<noteq> [] \<longrightarrow> length r < 6 \<or> py_int (r ! 5) = None \<longrightarrow>
          sum_borrowed (tx @ [r]) item = sum_borrowed tx item
          \<and> user_borrowed (tx @ [r]) u item = user_borrowed tx u item)"
proof -
  have sums: "sum_borrowed tx item = sum_list (map delta_or_zero (filter (on_item item) (drop 1 tx)))
   \<and> user_borrowed tx u item =
       sum_list (map delta_or_zero (filter (\<lambda>r. by_user u r \<and> on_item item r) (drop 1 tx)))"
    by (simp add: sum_borrowed_def user_borrowed_def sum_borrowed_loop_acc user_borrowed_loop_acc)
  have skip: "sum_borrowed (tx @ [r]) item = sum_borrowed tx item
          \<and> user_borrowed (tx @ [r]) u item = user_borrowed tx u item"
    if "tx \<noteq> []" "length r < 6 \<or> py_int (r ! 5) = None" for r
    using that
    by (auto simp: sum_borrowed_append user_borrowed_append on_item_def delta_or_zero_def)
  from sums skip show ?thesis by blast
qed

theorem folds_sum_parsable_deltas_witness:
  "sum_borrowed tx1 ''cam'' = 3
   \<and> sum_list (map delta_or_zero (filter (on_item ''cam'') (drop 1 tx1))) = 3
   \<and> user_borrowed tx1 (Some ''U2'') ''cam'' = 1
   \<and> sum_list (map delta_or_zero (filter (\<lambda>r. by_user (Some ''U2'') r \<and> on_item ''cam'' r) (drop 1 tx1))) = 1
   \<and> py_int ([''t8'', ''G1'', ''U2'', ''Bob'', ''cam'', ''n/a'', []] ! 5) = None
   \<and> sum_borrowed (tx1 @ [[''t8'', ''G1'', ''U2'', ''Bob'', ''cam'', ''n/a'', []]]) ''cam'' = 3
   \<and> user_borrowed (tx1 @ [[''t8'', ''G1'', ''U2'', ''Bob'', ''cam'', ''n/a'', []]]) (Some ''U2'') ''cam'' = 1"
proof -
  let ?r = "[''t8'', ''G1'', ''U2'', ''Bob'', ''cam'', ''n/a'', []]"
  have v: "sum_borrowed tx1 ''cam'' = 3" "user_borrowed tx1 (Some ''U2'') ''cam'' = 1"
    by code_simp+
  have h: "tx1 \<noteq> []" "py_int (?r ! 5) = None" by code_simp+
  note t = folds_sum_parsable_deltas [of tx1 "''cam''" "Some ''U2''"]
  from t [THEN conjunct1] v
  have a: "sum_list (map delta_or_zero (filter (on_item ''cam'') (drop 1 tx1))) = 3" by simp
  from t [THEN conjunct2, THEN conjunct1] v
  have b: "sum_list (map delta_or_zero
      (filter (\<lambda>r. by_user (Some ''U2'') r \<and> on_item ''cam'' r) (drop 1 tx1))) = 1" by simp
  from t [THEN conjunct2, THEN conjunct2, THEN spec, of ?r] h v
  have c: "sum_borrowed (tx1 @ [?r]) ''cam'' = 3 \<and> user_borrowed (tx1 @ [?r]) (Some ''U2'') ''cam'' = 1"
    by simp
  from v a b c h(2) show ?thesis by simp
qed

section \<open>Defining an item and reading it back\<close>

lemma index_of_None: "(index_of xs x = None) = (x \<notin> set xs)"
  by (induction xs) auto

lemma index_of_Some:
  "index_of xs x = Some i \<Longrightarrow> i < length xs \<and> xs ! i = x \<and> x \<notin> set (take i xs)"
proof (induction xs arbitrary: i)
  case Nil
  then show ?case by simp
next
  case (Cons y ys)
  show ?case
  proof (cases "y = x")
    case True
    with Cons.prems show ?thesis by simp
  next
    case False
    with Cons.prems obtain j where j: "index_of ys x = Some j" "i = Suc j" by auto
    with Cons.IH [OF j(1)] False show ?thesis by simp
  qed
qed

lemma index_of_append:
  "x \<notin> set zs \<Longrightarrow> index_of (ys @ zs) x = index_of ys x"
  by (induction ys) (auto simp: index_of_None)

lemma index_of_col_values_1:
  assumes "item \<noteq> []"
  shows "index_of (col_values_1 ws) item = index_of (map first_cell ws) item"
proof -
  let ?xs = "map first_cell ws"
  let ?P = "\<lambda>c::string. c = []"
  have split: "?xs = col_values_1 ws @ rev (takeWhile ?P (rev ?xs))"
    unfolding col_values_1_def
    by (metis rev_append rev_rev_ident takeWhile_dropWhile_id)
  have "item \<notin> set (rev (takeWhile ?P (rev ?xs)))"
    using assms by (auto dest: set_takeWhileD)
  then have "index_of (col_values_1 ws @ rev (takeWhile ?P (rev ?xs))) item
      = index_of (col_values_1 ws) item"
    by (rule index_of_append)
  with split show ?thesis by simp
qed

lemma find_update_first:
  "i < length xs \<Longrightarrow> P y \<Longrightarrow> list_all (\<lambda>x. \<not> P x) (take i xs) \<Longrightarrow> find P (xs[i := y]) = Some y"
proof (induction xs arbitrary: i)
  case Nil
  then show ?case by simp
next
  case (Cons x xs)
  then show ?case by (cases i) simp_all
qed

lemma find_update_other:
  "i < length xs \<Longrightarrow> \<not> P y \<Longrightarrow> \<not> P (xs ! i) \<Longrightarrow> find P (xs[i := y]) = find P xs"
proof (induction xs arbitrary: i)
  case Nil
  then show ?case by simp
next
  case (Cons x xs)
  then show ?case by (cases i) simp_all
qed

lemma find_append_one:
  "find P (xs @ [y]) = (case find P xs of Some x \<Rightarrow> Some x | None \<Rightarrow> if P y then Some y else None)"
  by (induction xs) simp_all

lemma find_None_iff_all: "(find P xs = None) = list_all (\<lambda>x. \<not> P x) xs"
  by (induction xs) simp_all

lemma three_cells: "length r = 3 \<Longrightarrow> \<exists>a b c. r = [a, b, c]"
  by (cases r; cases "tl r"; cases "tl (tl r)") auto

lemma header_cells:
  "str_get_item (zip items_header [a, b, c]) = py_str a"
  "int_get_total (zip items_header [a, b, c]) = int_of_pyval b"
  "dict_get (zip items_header [a, b, c]) ''note'' = Some c"
  by (simp_all add: items_header_def str_get_item_def int_get_total_def dict_get_def)

lemma get_item_loop_find:
  assumes "list_all (\<lambda>r. length r = 3 \<and> reads_back fl (r ! 0)) rows"
  shows "get_item_loop item (map (\<lambda>r. zip items_header (map (numericise fl) r)) rows) =
     (case find (\<lambda>r. r ! 0 = item) rows of
        None \<Rightarrow> Inr None
      | Some r \<Rightarrow>
          (case int_of_pyval (numericise fl (r ! 1)) of
             Inl err \<Rightarrow> Inl err
           | Inr t \<Rightarrow>
               Inr (Some \<lparr>item_name = item, item_total = t,
                          item_note = Some (numericise fl (r ! 2))\<rparr>)))"
  using assms
proof (induction rows)
  case Nil
  show ?case by simp
next
  case (Cons r rows)
  from Cons.prems have "length r = 3" by simp
  then obtain a b c where r: "r = [a, b, c]" using three_cells by blast
  from Cons.prems r have a: "py_str (numericise fl a) = a" by (simp add: reads_back_def)
  from Cons show ?case
    by (simp add: header_cells r a split: sum.splits)
qed

lemma get_item_find:
  assumes "list_all (\<lambda>r. length r = 3 \<and> reads_back fl (r ! 0)) rows"
  shows "get_item fl (items_header # rows) item =
     (case find (\<lambda>r. r ! 0 = item) rows of
        None \<Rightarrow> Inr None
      | Some r \<Rightarrow>
          (case int_of_pyval (numericise fl (r ! 1)) of
             Inl err \<Rightarrow> Inl err
           | Inr t \<Rightarrow>
               Inr (Some \<lparr>item_name = item, item_total = t,
                          item_note = Some (numericise fl (r ! 2))\<rparr>)))"
  using get_item_loop_find [OF assms] by (simp add: get_item_def get_all_records_def)

lemma numericise_str_int: "numericise fl (str_int n) = PyInt n"
  by (simp add: numericise_def str_int_no_underscore py_int_str_int)

lemma first_cell_three: "length r = 3 \<Longrightarrow> first_cell r = r ! 0"
  by (cases r) (simp_all add: first_cell_def)

lemma upsert_item_shape:
  assumes wf: "list_all (\<lambda>r. length r = 3 \<and> Q (r ! 0)) rows"
    and name: "item \<noteq> ''item''" "item \<noteq> []" and q: "Q item"
  shows "\<exists>rows'. upsert_item item tot note (items_header # rows) = items_header # rows'
      \<and> list_all (\<lambda>r. length r = 3 \<and> Q (r ! 0)) rows'
      \<and> find (\<lambda>r. r ! 0 = item) rows' = Some [item, str_int tot, note]
      \<and> (\<forall>other. other \<noteq> item \<longrightarrow>
            find (\<lambda>r. r ! 0 = other) rows' = find (\<lambda>r. r ! 0 = other) rows)"
proof -
  let ?new = "[item, str_int tot, note]"
  from wf have len: "list_all (\<lambda>r. length r = 3) rows" by (simp add: list_all_iff)
  have fc: "map first_cell rows = map (\<lambda>r. r ! 0) rows"
    using len by (induction rows) (simp_all add: first_cell_three)
  have hd_cell: "first_cell items_header = ''item''"
    by (simp add: first_cell_def items_header_def)
  have ix: "index_of (col_values_1 (items_header # rows)) item
      = map_option Suc (index_of (map (\<lambda>r. r ! 0) rows) item)"
    using name by (simp add: index_of_col_values_1 hd_cell fc)
  show ?thesis
  proof (cases "index_of (map (\<lambda>r. r ! 0) rows) item")
    case None
    then have absent: "item \<notin> set (map (\<lambda>r. r ! 0) rows)" by (simp add: index_of_None)
    then have nf: "find (\<lambda>r. r ! 0 = item) rows = None"
      by (auto simp: find_None_iff_all list_all_iff)
    have up: "upsert_item item tot note (items_header # rows) = items_header # (rows @ [?new])"
      using ix None by (simp add: upsert_item_def append_row_def)
    have "list_all (\<lambda>r. length r = 3 \<and> Q (r ! 0)) (rows @ [?new])" using wf q by simp
    moreover have "find (\<lambda>r. r ! 0 = item) (rows @ [?new]) = Some ?new"
      by (simp add: find_append_one nf)
    moreover have "find (\<lambda>r. r ! 0 = other) (rows @ [?new]) = find (\<lambda>r. r ! 0 = other) rows"
      if "other \<noteq> item" for other
      using that by (auto simp: find_append_one split: option.splits)
    ultimately show ?thesis using up by blast
  next
    case (Some i)
    from index_of_Some [OF Some]
    have i: "i < length rows" and before: "item \<notin> set (take i (map (\<lambda>r. r ! 0) rows))"
      by simp_all
    from index_of_Some [OF Some] i have at: "rows ! i ! 0 = item" by simp
    from len i have "length (rows ! i) = 3" by (simp add: list_all_length)
    then obtain a b c where ri: "rows ! i = [a, b, c]" using three_cells by blast
    with at have a: "a = item" by simp
    have up: "upsert_item item tot note (items_header # rows) = items_header # rows[i := ?new]"
      using ix Some i ri a
      by (simp add: upsert_item_def update_BC_def set_BC_def first_cell_def)
    have "list_all (\<lambda>r. length r = 3 \<and> Q (r ! 0)) (rows[i := ?new])"
      using wf q by (auto simp: list_all_iff dest: set_update_subset_insert [THEN subsetD])
    moreover have "find (\<lambda>r. r ! 0 = item) (rows[i := ?new]) = Some ?new"
    proof (rule find_update_first [OF i])
      show "?new ! 0 = item" by simp
      from before show "list_all (\<lambda>x. \<not> x ! 0 = item) (take i rows)"
        by (auto simp: list_all_iff take_map)
    qed
    moreover have "find (\<lambda>r. r ! 0 = other) (rows[i := ?new]) = find (\<lambda>r. r ! 0 = other) rows"
      if "other \<noteq> item" for other
      using that at by (intro find_update_other [OF i]) auto
    ultimately show ?thesis using up by blast
  qed
qed

text \<open>
  For the other names the registry does what is asked of \<^verbatim>\<open>upsert_item\<close>. On a sheet with
  its header and rows of three cells whose names read back as themselves, and for a name
  that reads back as itself and is neither empty nor the header cell (so not a name like
  \<^verbatim>\<open>007\<close>, which reads back as 7), the item then reads back with the given total and with
  the note as \<^verbatim>\<open>get_all_records()\<close> hands it out, and every other name reads as before.
\<close>

lemma upsert_item_then_get_item:
  assumes wf: "list_all (\<lambda>r. length r = 3 \<and> reads_back fl (r ! 0)) rows"
    and name: "item \<noteq> ''item''" "item \<noteq> []" and rb: "reads_back fl item"
  shows "get_item fl (upsert_item item tot note (items_header # rows)) item
      = Inr (Some \<lparr>item_name = item, item_total = tot, item_note = Some (numericise fl note)\<rparr>)
    \<and> (\<forall>other. other \<noteq> item \<longrightarrow>
          get_item fl (upsert_item item tot note (items_header # rows)) other
            = get_item fl (items_header # rows) other)"
proof -
  from upsert_item_shape [of "reads_back fl", OF wf name rb, of tot "note"] obtain rows' where
    up: "upsert_item item tot note (items_header # rows) = items_header # rows'"
    and wf': "list_all (\<lambda>r. length r = 3 \<and> reads_back fl (r ! 0)) rows'"
    and mine: "find (\<lambda>r. r ! 0 = item) rows' = Some [item, str_int tot, note]"
    and others: "\<And>other. other \<noteq> item \<Longrightarrow>
            find (\<lambda>r. r ! 0 = other) rows' = find (\<lambda>r. r ! 0 = other) rows"
    by blast
  show ?thesis
    by (simp add: up get_item_find [OF wf'] get_item_find [OF wf] mine others numericise_str_int)
qed

lemma upsert_item_then_get_item_example:
  "get_item (py_float env0)
     (upsert_item ''cam'' 4 ''new'' [items_header, [''cam'', ''3'', []]]) ''cam''
     = Inr (Some \<lparr>item_name = ''cam'', item_total = 4, item_note = Some (PyStr ''new'')\<rparr>)"
proof -
  have rb: "reads_back (py_float env0) ''cam''" "numericise (py_float env0) ''new'' = PyStr ''new''"
    by code_simp+
  from upsert_item_then_get_item [of "py_float env0" "[[''cam'', ''3'', []]]" "''cam''" 4 "''new''"] rb
  show ?thesis by simp
qed

end
